theory Spec2Isabelle
  imports Complex_Main
begin

section \<open>Data model (types.ts)\<close>

text \<open>
  JavaScript numbers are modelled as \<^typ>\<open>real\<close> (timestamps, importance, relevance)
  and as \<^typ>\<open>nat\<close> where the code only counts (\<open>accessCount\<close>, \<open>limit\<close>,
  \<open>targetSize\<close>, array lengths). \<open>NaN\<close> and the infinities are outside the model.
  Arithmetic is exact, except in \<open>cosineSimilarity\<close>, where every operation on doubles is
  followed by the rounding \<open>rnd\<close> of its result: the relevance it returns is compared
  with fixed bounds, and there the last bit matters.
\<close>

datatype MemoryLayer = WORKING | SHORT_TERM | LONG_TERM

datatype MemorySource = USER | AGENT | SYSTEM

fun layerName :: "MemoryLayer \<Rightarrow> string" where
  "layerName WORKING = ''working''"
| "layerName SHORT_TERM = ''short-term''"
| "layerName LONG_TERM = ''long-term''"

record MemoryMetadata =
  timestamp :: real
  importance :: real
  source :: MemorySource
  tags :: "string list"
  accessCount :: nat
  lastAccessed :: real
  layer :: MemoryLayer
  embeddingModel :: "string option"

record Memory =
  m_id :: string
  content :: string
  embedding :: "real list option"
  metadata :: MemoryMetadata

record MemorySearchResult =
  r_id :: string
  r_content :: string
  relevance :: real
  r_metadata :: MemoryMetadata

record ConsolidationResult =
  consolidated :: "Memory list"
  c_deleted :: "string list"
  summary :: string

record ForgetResult =
  deleted :: "string list"
  reason :: string

record MemoryStoreOptions =
  o_importance :: "real option"
  o_tags :: "string list option"
  o_source :: "MemorySource option"
  o_layer :: "MemoryLayer option"

record MemorySearchOptions =
  limit :: "nat option"
  layerFilter :: "MemoryLayer list option"
  minRelevance :: "real option"
  s_tags :: "string list option"

record ConsolidationOptions =
  co_olderThan :: "real option"
  co_targetSize :: "nat option"
  co_layer :: "MemoryLayer option"

record ForgetOptions =
  memoryId :: "string option"
  olderThan :: "real option"
  fo_layer :: "MemoryLayer option"
  fo_reason :: "string option"

text \<open>Every \<open>throw new Error(msg)\<close> and every rejected promise is a value of this type.\<close>

datatype error = Error string | TypeError string

text \<open>
  The filter object handed to \<open>IVectorStore.search\<close> and \<open>IVectorStore.list\<close>
  (\<open>Record<string, unknown>\<close> in the source); only the three keys the adapters read.
  A call without filter is the call with the empty filter: every test on a key of the
  filter is guarded by the key being present.
\<close>

record Filter =
  f_layer :: "MemoryLayer option"
  f_tags :: "string list option"
  f_minImportance :: "real option"

definition noFilter :: Filter where
  "noFilter = \<lparr>f_layer = None, f_tags = None, f_minImportance = None\<rparr>"

section \<open>JavaScript \<open>Map\<close>: keyed, in insertion order\<close>

fun mapSet :: "'k \<Rightarrow> 'a \<Rightarrow> ('k \<times> 'a) list \<Rightarrow> ('k \<times> 'a) list" where
  "mapSet k v [] = [(k, v)]"
| "mapSet k v ((k', v') # m) = (if k' = k then (k, v) # m else (k', v') # mapSet k v m)"

definition mapGet :: "('k \<times> 'a) list \<Rightarrow> 'k \<Rightarrow> 'a option" where
  "mapGet m k = map_of m k"

definition mapHas :: "('k \<times> 'a) list \<Rightarrow> 'k \<Rightarrow> bool" where
  "mapHas m k = (map_of m k \<noteq> None)"

definition mapDelete :: "'k \<Rightarrow> ('k \<times> 'a) list \<Rightarrow> ('k \<times> 'a) list" where
  "mapDelete k m = filter (\<lambda>kv. fst kv \<noteq> k) m"

definition mapValues :: "('k \<times> 'a) list \<Rightarrow> 'a list" where
  "mapValues m = map snd m"

section \<open>The in-process vector store (vectorstore/memory.ts)\<close>

record StoredMemory =
  memory :: Memory
  sm_embedding :: "real list"

type_synonym MemoryVectorStore = "(string \<times> StoredMemory) list"

definition mvs_store :: "Memory \<Rightarrow> MemoryVectorStore \<Rightarrow> (error + unit) \<times> MemoryVectorStore" where
  "mvs_store m v =
     (case embedding m of
        None \<Rightarrow> (Inl (Error ''Memory must have an embedding to store''), v)
      | Some e \<Rightarrow> (Inr (), mapSet (m_id m) \<lparr>memory = m, sm_embedding = e\<rparr> v))"

text \<open>
  The loop of \<open>cosineSimilarity\<close> over \<open>i < a.length\<close>, run once the lengths agree.
  \<open>rnd\<close> is the rounding of a real number to a double: a product is rounded, and so is
  the sum that \<open>+=\<close> stores.
\<close>

fun cosineLoop ::
  "(real \<Rightarrow> real) \<Rightarrow> real list \<Rightarrow> real list \<Rightarrow> real \<times> real \<times> real \<Rightarrow> real \<times> real \<times> real" where
  "cosineLoop rnd (x # xs) (y # ys) (dotProduct, magnitudeA, magnitudeB) =
     cosineLoop rnd xs ys (rnd (dotProduct + rnd (x * y)), rnd (magnitudeA + rnd (x * x)),
                           rnd (magnitudeB + rnd (y * y)))"
| "cosineLoop rnd [] ys acc = acc"
| "cosineLoop rnd xs [] acc = acc"

text \<open>
  \<open>Math.sqrt\<close>, the product of the magnitudes and the quotient are rounded as well. A
  product of two magnitudes that are not 0 is taken not to round to 0 (the code would divide
  by zero there).
\<close>

definition cosineSimilarity :: "(real \<Rightarrow> real) \<Rightarrow> real list \<Rightarrow> real list \<Rightarrow> error + real" where
  "cosineSimilarity rnd a b =
     (if length a \<noteq> length b then Inl (Error ''Vector dimensions must match'')
      else (case cosineLoop rnd a b (0, 0, 0) of
              (dotProduct, sqA, sqB) \<Rightarrow>
                (let magnitudeA = rnd (sqrt sqA); magnitudeB = rnd (sqrt sqB)
                 in if magnitudeA = 0 \<or> magnitudeB = 0 then Inr 0
                    else Inr (rnd (dotProduct / rnd (magnitudeA * magnitudeB))))))"

definition hasAllTags :: "string list \<Rightarrow> Memory \<Rightarrow> bool" where
  "hasAllTags ts m = list_all (\<lambda>tag. tag \<in> set (tags (metadata m))) ts"

definition searchKeeps :: "Filter \<Rightarrow> Memory \<Rightarrow> bool" where
  "searchKeeps f m =
     ((case f_layer f of None \<Rightarrow> True | Some l \<Rightarrow> layer (metadata m) = l) \<and>
      (case f_tags f of None \<Rightarrow> True | Some ts \<Rightarrow> hasAllTags ts m) \<and>
      (case f_minImportance f of None \<Rightarrow> True | Some i \<Rightarrow> \<not> importance (metadata m) < i))"

definition listKeeps :: "Filter \<Rightarrow> Memory \<Rightarrow> bool" where
  "listKeeps f m =
     ((case f_layer f of None \<Rightarrow> True | Some l \<Rightarrow> layer (metadata m) = l) \<and>
      (case f_tags f of None \<Rightarrow> True | Some ts \<Rightarrow> hasAllTags ts m))"

fun searchLoop ::
  "(real \<Rightarrow> real) \<Rightarrow> real list \<Rightarrow> Filter \<Rightarrow> StoredMemory list \<Rightarrow> error + MemorySearchResult list" where
  "searchLoop rnd q f [] = Inr []"
| "searchLoop rnd q f (s # rest) =
     (if \<not> searchKeeps f (memory s) then searchLoop rnd q f rest
      else (case cosineSimilarity rnd q (sm_embedding s) of
              Inl e \<Rightarrow> Inl e
            | Inr rel \<Rightarrow>
                (case searchLoop rnd q f rest of
                   Inl e \<Rightarrow> Inl e
                 | Inr rs \<Rightarrow>
                     Inr (\<lparr>r_id = m_id (memory s), r_content = content (memory s),
                           relevance = rel, r_metadata = metadata (memory s)\<rparr> # rs))))"

text \<open>
  \<open>results.sort((a, b) => b.relevance - a.relevance)\<close>: the sort of the engine is stable,
  as \<^const>\<open>sort_key\<close> is, here on the negated relevance for the descending order.
\<close>

definition byRelevanceDesc :: "MemorySearchResult list \<Rightarrow> MemorySearchResult list" where
  "byRelevanceDesc rs = sort_key (\<lambda>r. - relevance r) rs"

definition mvs_search ::
  "(real \<Rightarrow> real) \<Rightarrow> real list \<Rightarrow> nat \<Rightarrow> Filter \<Rightarrow> MemoryVectorStore
     \<Rightarrow> (error + MemorySearchResult list) \<times> MemoryVectorStore" where
  "mvs_search rnd q k f v =
     (case searchLoop rnd q f (mapValues v) of
        Inl e \<Rightarrow> (Inl e, v)
      | Inr rs \<Rightarrow> (Inr (take k (byRelevanceDesc rs)), v))"

definition mvs_get :: "string \<Rightarrow> MemoryVectorStore \<Rightarrow> (error + Memory option) \<times> MemoryVectorStore" where
  "mvs_get i v = (Inr (map_option memory (mapGet v i)), v)"

definition mvs_delete :: "string \<Rightarrow> MemoryVectorStore \<Rightarrow> (error + bool) \<times> MemoryVectorStore" where
  "mvs_delete i v = (Inr (mapHas v i), mapDelete i v)"

fun mvs_deleteLoop :: "string list \<Rightarrow> nat \<Rightarrow> MemoryVectorStore \<Rightarrow> nat \<times> MemoryVectorStore" where
  "mvs_deleteLoop [] n v = (n, v)"
| "mvs_deleteLoop (i # ids) n v =
     mvs_deleteLoop ids (if mapHas v i then Suc n else n) (mapDelete i v)"

definition mvs_deleteBatch :: "string list \<Rightarrow> MemoryVectorStore \<Rightarrow> (error + nat) \<times> MemoryVectorStore" where
  "mvs_deleteBatch ids v = (case mvs_deleteLoop ids 0 v of (n, v') \<Rightarrow> (Inr n, v'))"

definition mvs_list :: "Filter \<Rightarrow> MemoryVectorStore \<Rightarrow> (error + Memory list) \<times> MemoryVectorStore" where
  "mvs_list f v = (Inr (filter (listKeeps f) (map memory (mapValues v))), v)"

definition mvs_update :: "Memory \<Rightarrow> MemoryVectorStore \<Rightarrow> (error + unit) \<times> MemoryVectorStore" where
  "mvs_update m v =
     (case mapGet v (m_id m) of
        None \<Rightarrow> (Inl (Error (''Memory with id '' @ m_id m @ '' not found'')), v)
      | Some existing \<Rightarrow>
          (Inr (), mapSet (m_id m)
             \<lparr>memory = m,
              sm_embedding = (case embedding m of Some e \<Rightarrow> e | None \<Rightarrow> sm_embedding existing)\<rparr> v))"

section \<open>The capabilities the manager is written against (types.ts)\<close>

text \<open>
  \<open>IVectorStore\<close> and \<open>IEmbeddingProvider\<close> are interfaces; the manager receives an
  implementation of each in its constructor. An implementation is a record of its methods
  over its own state \<^typ>\<open>'v\<close>; a method returns the settled promise (\<^const>\<open>Inl\<close> a
  rejection) and the state it leaves. The adapters for remote backends (vectorstore/weaviate.ts
  and vectorstore/pinecone.ts) reject when a write request fails.

  \<open>vs_inPlace\<close> is not a method. The in-process adapter hands out the stored objects
  themselves from \<open>list\<close> and \<open>get\<close>, and the manager puts the same objects into its
  working memory, so an assignment to a field of such an object is seen by the store at once;
  \<open>vs_inPlace\<close> is that effect on the store (\<^const>\<open>None\<close> for an adapter that hands
  out copies). It is only needed where the manager assigns without calling \<open>update\<close>.
\<close>

record 'v IVectorStore =
  vs_store :: "Memory \<Rightarrow> 'v \<Rightarrow> (error + unit) \<times> 'v"
  vs_search :: "real list \<Rightarrow> nat \<Rightarrow> Filter \<Rightarrow> 'v \<Rightarrow> (error + MemorySearchResult list) \<times> 'v"
  vs_get :: "string \<Rightarrow> 'v \<Rightarrow> (error + Memory option) \<times> 'v"
  vs_delete :: "string \<Rightarrow> 'v \<Rightarrow> (error + bool) \<times> 'v"
  vs_deleteBatch :: "string list \<Rightarrow> 'v \<Rightarrow> (error + nat) \<times> 'v"
  vs_list :: "Filter \<Rightarrow> 'v \<Rightarrow> (error + Memory list) \<times> 'v"
  vs_update :: "Memory \<Rightarrow> 'v \<Rightarrow> (error + unit) \<times> 'v"
  vs_inPlace :: "(Memory \<Rightarrow> 'v \<Rightarrow> 'v) option"

record 'p IEmbeddingProvider =
  embed :: "string \<Rightarrow> 'p \<Rightarrow> (error + real list) \<times> 'p"

definition mvs_inPlace :: "Memory \<Rightarrow> MemoryVectorStore \<Rightarrow> MemoryVectorStore" where
  "mvs_inPlace m v =
     (case mapGet v (m_id m) of
        None \<Rightarrow> v
      | Some existing \<Rightarrow> mapSet (m_id m) (existing\<lparr>memory := m\<rparr>) v)"

definition memoryVectorStore :: "(real \<Rightarrow> real) \<Rightarrow> MemoryVectorStore IVectorStore" where
  "memoryVectorStore rnd =
     \<lparr>vs_store = mvs_store, vs_search = mvs_search rnd, vs_get = mvs_get, vs_delete = mvs_delete,
      vs_deleteBatch = mvs_deleteBatch, vs_list = mvs_list, vs_update = mvs_update,
      vs_inPlace = Some mvs_inPlace\<rparr>"

text \<open>
  What an operation of the manager runs in: the two implementations, the values of
  config.ts it reads (\<open>config.decay.rate\<close>, \<open>config.consolidation.age\<close>,
  \<open>config.ttl\<close>), and the two computations that depend on the locale of the host
  (\<open>Date.toLocaleDateString\<close>, and with it the text written by
  \<open>consolidateMemories\<close>), taken as given.
\<close>

record ('v, 'p) env =
  vsOps :: "'v IVectorStore"
  epOps :: "'p IEmbeddingProvider"
  decayRate :: real
  consolidationAge :: real
  ttl :: "MemoryLayer \<Rightarrow> real"
  consolidateMemories :: "Memory list \<Rightarrow> string"
  toLocaleDateString :: "real \<Rightarrow> string"

section \<open>The memory manager (memory/MemoryManager.ts)\<close>

text \<open>
  The fields of the class. An operation takes the state and returns the settled promise with
  the state it leaves, also when it rejects. \<open>Date.now()\<close> is the argument \<open>now\<close>
  (one reading for the whole operation) and \<open>randomUUID()\<close> the argument \<open>newId\<close>.
\<close>

record ('v, 'p) MemoryManager =
  vectorStore :: 'v
  embeddingProvider :: 'p
  workingMemory :: "(string \<times> Memory) list"

definition orElse :: "'a option \<Rightarrow> 'a \<Rightarrow> 'a" where
  "orElse x d = (case x of None \<Rightarrow> d | Some y \<Rightarrow> y)"

definition determineInitialLayer :: "MemoryStoreOptions \<Rightarrow> MemoryLayer" where
  "determineInitialLayer options =
     (let imp = orElse (o_importance options) 0.5
      in if imp \<ge> 0.8 then LONG_TERM
         else if imp \<ge> 0.5 then SHORT_TERM
         else WORKING)"

text \<open>The object literal of \<open>store\<close>.\<close>

definition newMemory :: "string \<Rightarrow> real \<Rightarrow> string \<Rightarrow> real list \<Rightarrow> MemoryStoreOptions \<Rightarrow> Memory" where
  "newMemory newId now text emb options =
     \<lparr>m_id = newId, content = text, embedding = Some emb,
      metadata = \<lparr>timestamp = now,
                  importance = orElse (o_importance options) 0.5,
                  source = orElse (o_source options) AGENT,
                  tags = orElse (o_tags options) [],
                  accessCount = 0,
                  lastAccessed = now,
                  layer = orElse (o_layer options) (determineInitialLayer options),
                  embeddingModel = None\<rparr>\<rparr>"

definition store ::
  "('v, 'p) env \<Rightarrow> string \<Rightarrow> real \<Rightarrow> string \<Rightarrow> MemoryStoreOptions \<Rightarrow> ('v, 'p) MemoryManager
     \<Rightarrow> (error + Memory) \<times> ('v, 'p) MemoryManager" where
  "store env newId now text options st =
     (case embed (epOps env) text (embeddingProvider st) of
        (Inl e, p') \<Rightarrow> (Inl e, st\<lparr>embeddingProvider := p'\<rparr>)
      | (Inr emb, p') \<Rightarrow>
          (let mem = newMemory newId now text emb options;
               st1 = st\<lparr>embeddingProvider := p',
                        workingMemory := mapSet newId mem (workingMemory st)\<rparr>
           in (case vs_store (vsOps env) mem (vectorStore st1) of
                 (Inl e, v') \<Rightarrow> (Inl e, st1\<lparr>vectorStore := v'\<rparr>)
               | (Inr u, v') \<Rightarrow> (Inr mem, st1\<lparr>vectorStore := v'\<rparr>))))"

definition get ::
  "('v, 'p) env \<Rightarrow> string \<Rightarrow> ('v, 'p) MemoryManager \<Rightarrow> (error + Memory option) \<times> ('v, 'p) MemoryManager" where
  "get env i st =
     (case mapGet (workingMemory st) i of
        Some working \<Rightarrow> (Inr (Some working), st)
      | None \<Rightarrow> (case vs_get (vsOps env) i (vectorStore st) of
                  (r, v') \<Rightarrow> (r, st\<lparr>vectorStore := v'\<rparr>)))"

text \<open>
  An assignment to a field of a record, where \<open>mem\<close> is the record after it. The manager
  assigns to the objects it has got from \<open>get\<close> or \<open>list\<close>; the assignment
  reaches the store, and the working memory holding the same object, only where the objects
  are shared.
\<close>

definition assignInPlace :: "('v, 'p) env \<Rightarrow> Memory \<Rightarrow> ('v, 'p) MemoryManager \<Rightarrow> ('v, 'p) MemoryManager" where
  "assignInPlace env mem st =
     (case vs_inPlace (vsOps env) of
        None \<Rightarrow> st
      | Some w \<Rightarrow>
          st\<lparr>vectorStore := w mem (vectorStore st),
             workingMemory := (if mapHas (workingMemory st) (m_id mem)
                               then mapSet (m_id mem) mem (workingMemory st)
                               else workingMemory st)\<rparr>)"

text \<open>
  \<open>updateAccessCount\<close> raises the two counters on the object that \<open>get\<close> returned,
  then sets the working memory, then calls \<open>update\<close>: where the objects are shared the
  store holds the raised counters also when \<open>update\<close> rejects.
\<close>

definition updateAccessCount ::
  "('v, 'p) env \<Rightarrow> real \<Rightarrow> string \<Rightarrow> ('v, 'p) MemoryManager \<Rightarrow> (error + unit) \<times> ('v, 'p) MemoryManager" where
  "updateAccessCount env now i st =
     (case get env i st of
        (Inl e, st1) \<Rightarrow> (Inl e, st1)
      | (Inr None, st1) \<Rightarrow> (Inr (), st1)
      | (Inr (Some mem), st1) \<Rightarrow>
          (let mem' = mem\<lparr>metadata := (metadata mem)\<lparr>accessCount := accessCount (metadata mem) + 1,
                                                      lastAccessed := now\<rparr>\<rparr>;
               st2 = assignInPlace env mem' st1;
               st3 = (if mapHas (workingMemory st2) i
                      then st2\<lparr>workingMemory := mapSet i mem' (workingMemory st2)\<rparr>
                      else st2)
           in (case vs_update (vsOps env) mem' (vectorStore st3) of
                 (Inl e, v') \<Rightarrow> (Inl e, st3\<lparr>vectorStore := v'\<rparr>)
               | (Inr u, v') \<Rightarrow> (Inr (), st3\<lparr>vectorStore := v'\<rparr>))))"

text \<open>The loop \<open>for (const result of results) await this.updateAccessCount(result.id)\<close>.\<close>

fun updateAccessCounts ::
  "('v, 'p) env \<Rightarrow> real \<Rightarrow> string list \<Rightarrow> ('v, 'p) MemoryManager \<Rightarrow> (error + unit) \<times> ('v, 'p) MemoryManager" where
  "updateAccessCounts env now [] st = (Inr (), st)"
| "updateAccessCounts env now (i # ids) st =
     (case updateAccessCount env now i st of
        (Inl e, st1) \<Rightarrow> (Inl e, st1)
      | (Inr u, st1) \<Rightarrow> updateAccessCounts env now ids st1)"

text \<open>
  A result of the in-process adapter holds the \<open>metadata\<close> object of the stored record,
  the one whose counters \<open>updateAccessCount\<close> raises: where the objects are shared, the
  results that \<open>search\<close> returns show the raised counters.
\<close>

definition raisedCounters :: "('v, 'p) env \<Rightarrow> real \<Rightarrow> MemorySearchResult \<Rightarrow> MemorySearchResult" where
  "raisedCounters env now r =
     (case vs_inPlace (vsOps env) of
        None \<Rightarrow> r
      | Some w \<Rightarrow>
          r\<lparr>r_metadata := (r_metadata r)\<lparr>accessCount := accessCount (r_metadata r) + 1,
                                              lastAccessed := now\<rparr>\<rparr>)"

definition buildFilter :: "MemorySearchOptions \<Rightarrow> Filter" where
  "buildFilter options =
     \<lparr>f_layer = (case layerFilter options of
                    Some (l # ls) \<Rightarrow> Some l
                  | _ \<Rightarrow> None),
      f_tags = (case s_tags options of
                   Some (t # ts) \<Rightarrow> Some (t # ts)
                 | _ \<Rightarrow> None),
      f_minImportance = None\<rparr>"

definition search ::
  "('v, 'p) env \<Rightarrow> real \<Rightarrow> string \<Rightarrow> MemorySearchOptions \<Rightarrow> ('v, 'p) MemoryManager
     \<Rightarrow> (error + MemorySearchResult list) \<times> ('v, 'p) MemoryManager" where
  "search env now query options st =
     (let lmt = orElse (limit options) 10;
          minRel = orElse (minRelevance options) 0
      in (case embed (epOps env) query (embeddingProvider st) of
            (Inl e, p') \<Rightarrow> (Inl e, st\<lparr>embeddingProvider := p'\<rparr>)
          | (Inr queryEmbedding, p') \<Rightarrow>
              (case vs_search (vsOps env) queryEmbedding (lmt * 2) (buildFilter options)
                      (vectorStore st) of
                 (Inl e, v') \<Rightarrow> (Inl e, st\<lparr>embeddingProvider := p', vectorStore := v'\<rparr>)
               | (Inr found, v') \<Rightarrow>
                   (let results = filter (\<lambda>r. relevance r \<ge> minRel) found
                    in (case updateAccessCounts env now (map r_id results)
                               (st\<lparr>embeddingProvider := p', vectorStore := v'\<rparr>) of
                          (Inl e, st2) \<Rightarrow> (Inl e, st2)
                        | (Inr u, st2) \<Rightarrow>
                            (Inr (map (raisedCounters env now) (take lmt results)), st2))))))"

fun digitChar :: "nat \<Rightarrow> char" where
  "digitChar d = ''0123456789'' ! (d mod 10)"

fun showNat :: "nat \<Rightarrow> string" where
  "showNat n = (if n < 10 then [digitChar n] else showNat (n div 10) @ [digitChar (n mod 10)])"

fun joinWith :: "string \<Rightarrow> string list \<Rightarrow> string" where
  "joinWith sep [] = []"
| "joinWith sep [x] = x"
| "joinWith sep (x # y # ys) = x @ sep @ joinWith sep (y # ys)"

definition countLayer :: "(MemoryLayer \<times> nat) list \<Rightarrow> MemorySearchResult \<Rightarrow> (MemoryLayer \<times> nat) list" where
  "countLayer acc r =
     mapSet (layer (r_metadata r)) (orElse (mapGet acc (layer (r_metadata r))) 0 + 1) acc"

definition generateSummary :: "MemorySearchResult list \<Rightarrow> string \<Rightarrow> string" where
  "generateSummary results task =
     (if length results = 0
      then ''No relevant memories found for task: '' @ [CHR 0x22] @ task @ [CHR 0x22]
      else (let layers = foldl countLayer [] results;
                layerSummary = joinWith '', '' (map (\<lambda>(l, c). showNat c @ '' '' @ layerName l) layers)
            in ''Found '' @ showNat (length results) @ '' relevant memories ('' @ layerSummary
               @ '') for task: '' @ [CHR 0x22] @ task @ [CHR 0x22]))"

record RecallResult =
  relevantMemories :: "MemorySearchResult list"
  rc_summary :: string

definition recall ::
  "('v, 'p) env \<Rightarrow> real \<Rightarrow> string \<Rightarrow> string option \<Rightarrow> nat option \<Rightarrow> ('v, 'p) MemoryManager
     \<Rightarrow> (error + RecallResult) \<times> ('v, 'p) MemoryManager" where
  "recall env now task context lmt st =
     (let searchQuery = (case context of
                           None \<Rightarrow> task
                         | Some c \<Rightarrow> if c = [] then task
                                     else task @ [CHR 0x0A, CHR 0x0A] @ ''Context: '' @ c)
      in (case search env now searchQuery
                 \<lparr>limit = Some (orElse lmt 10),
                  layerFilter = Some [WORKING, SHORT_TERM, LONG_TERM],
                  minRelevance = None, s_tags = None\<rparr> st of
            (Inl e, st1) \<Rightarrow> (Inl e, st1)
          | (Inr rs, st1) \<Rightarrow>
              (Inr \<lparr>relevantMemories = rs, rc_summary = generateSummary rs task\<rparr>, st1)))"

subsection \<open>Consolidation\<close>

definition calculateMemoryScore :: "('v, 'p) env \<Rightarrow> real \<Rightarrow> Memory \<Rightarrow> real" where
  "calculateMemoryScore env now mem =
     (let age = now - timestamp (metadata mem);
          ageDays = age / (1000 * 60 * 60 * 24);
          decayedImportance = importance (metadata mem) * exp (- decayRate env * (ageDays / 30));
          accessBonus = ln (real (accessCount (metadata mem) + 1)) * 0.1
      in decayedImportance + accessBonus)"

text \<open>
  \<open>groupByTags\<close> fills a plain object. Reading \<open>groups[primaryTag]\<close> for a name that
  \<open>Object.prototype\<close> defines finds the inherited value, which is truthy and has no
  \<open>push\<close>: the call throws a \<open>TypeError\<close>.
\<close>

definition objectPrototypeKeys :: "string list" where
  "objectPrototypeKeys =
     [''constructor'', ''__proto__'', ''hasOwnProperty'', ''isPrototypeOf'',
      ''propertyIsEnumerable'', ''toLocaleString'', ''toString'', ''valueOf'',
      ''__defineGetter__'', ''__defineSetter__'', ''__lookupGetter__'', ''__lookupSetter__'']"

definition primaryTagOf :: "Memory \<Rightarrow> string" where
  "primaryTagOf mem =
     (case tags (metadata mem) of
        [] \<Rightarrow> ''uncategorized''
      | t # ts \<Rightarrow> if t = [] then ''uncategorized'' else t)"

fun groupByTagsLoop :: "Memory list \<Rightarrow> (string \<times> Memory list) list \<Rightarrow> error + (string \<times> Memory list) list" where
  "groupByTagsLoop [] groups = Inr groups"
| "groupByTagsLoop (mem # rest) groups =
     (let primaryTag = primaryTagOf mem
      in if primaryTag \<in> set objectPrototypeKeys
         then Inl (TypeError ''groups[primaryTag].push is not a function'')
         else groupByTagsLoop rest
                (mapSet primaryTag (orElse (mapGet groups primaryTag) [] @ [mem]) groups))"

definition groupByTags :: "Memory list \<Rightarrow> error + (string \<times> Memory list) list" where
  "groupByTags memories = groupByTagsLoop memories []"

text \<open>
  \<open>Object.entries\<close> lists the keys that are array indices first, in ascending numeric
  order, then the other keys in the order of their creation.
\<close>

definition isDigit :: "char \<Rightarrow> bool" where
  "isDigit c = (c \<in> set ''0123456789'')"

definition digitsValue :: "string \<Rightarrow> nat" where
  "digitsValue s = foldl (\<lambda>n c. 10 * n + (of_char c - 48)) 0 s"

definition isArrayIndex :: "string \<Rightarrow> bool" where
  "isArrayIndex s =
     (s \<noteq> [] \<and> list_all isDigit s \<and> (s = ''0'' \<or> hd s \<noteq> CHR ''0'') \<and> digitsValue s < 2 ^ 32 - 1)"

definition objectEntries :: "(string \<times> 'a) list \<Rightarrow> (string \<times> 'a) list" where
  "objectEntries obj =
     sort_key (\<lambda>kv. digitsValue (fst kv)) (filter (\<lambda>kv. isArrayIndex (fst kv)) obj)
     @ filter (\<lambda>kv. \<not> isArrayIndex (fst kv)) obj"

text \<open>\<open>[...new Set(xs)]\<close>: the first occurrence of every element, in order.\<close>

fun uniqueInOrder :: "'a list \<Rightarrow> 'a list" where
  "uniqueInOrder [] = []"
| "uniqueInOrder (x # xs) = x # uniqueInOrder (filter (\<lambda>y. y \<noteq> x) xs)"

definition deleteFromWorkingMemory :: "string list \<Rightarrow> (string \<times> Memory) list \<Rightarrow> (string \<times> Memory) list" where
  "deleteFromWorkingMemory ids wm = foldl (\<lambda>w i. mapDelete i w) wm ids"

text \<open>
  The loop over the groups. \<open>uuids k\<close> is the identifier drawn by the \<open>k\<close>-th call of
  \<open>store\<close> in this run. The list \<open>toKeep\<close> of the source is only written, never read after
  the loop, and is left out.
\<close>

fun consolidateGroups ::
  "('v, 'p) env \<Rightarrow> (nat \<Rightarrow> string) \<Rightarrow> real \<Rightarrow> nat \<Rightarrow> (string \<times> Memory list) list
     \<Rightarrow> Memory list \<times> string list \<Rightarrow> ('v, 'p) MemoryManager
     \<Rightarrow> (error + Memory list \<times> string list) \<times> ('v, 'p) MemoryManager" where
  "consolidateGroups env uuids now k [] acc st = (Inr acc, st)"
| "consolidateGroups env uuids now k ((tag, memories) # rest) (cons, del) st =
     (if length memories < 3 then consolidateGroups env uuids now k rest (cons, del) st
      else
        (let consolidatedContent = consolidateMemories env memories;
             avgImportance = sum_list (map (\<lambda>m. importance (metadata m)) memories)
                             / real (length memories)
         in (case store env (uuids k) now consolidatedContent
                    \<lparr>o_importance = Some (avgImportance * 0.9),
                     o_tags = Some (uniqueInOrder (concat (map (\<lambda>m. tags (metadata m)) memories))
                                    @ [tag, ''consolidated'']),
                     o_source = Some SYSTEM,
                     o_layer = Some LONG_TERM\<rparr> st of
               (Inl e, st1) \<Rightarrow> (Inl e, st1)
             | (Inr consolidatedMemory, st1) \<Rightarrow>
                 (let ids = map m_id memories
                  in (case vs_deleteBatch (vsOps env) ids (vectorStore st1) of
                        (Inl e, v') \<Rightarrow> (Inl e, st1\<lparr>vectorStore := v'\<rparr>)
                      | (Inr n, v') \<Rightarrow>
                          consolidateGroups env uuids now (Suc k) rest
                            (cons @ [consolidatedMemory], del @ ids)
                            (st1\<lparr>vectorStore := v',
                                 workingMemory := deleteFromWorkingMemory ids (workingMemory st1)\<rparr>))))))"

definition consolidate ::
  "('v, 'p) env \<Rightarrow> (nat \<Rightarrow> string) \<Rightarrow> real \<Rightarrow> ConsolidationOptions \<Rightarrow> ('v, 'p) MemoryManager
     \<Rightarrow> (error + ConsolidationResult) \<times> ('v, 'p) MemoryManager" where
  "consolidate env uuids now options st =
     (let older = orElse (co_olderThan options) (now - consolidationAge env);
          targetSize = orElse (co_targetSize options) 50;
          lay = orElse (co_layer options) SHORT_TERM
      in (case vs_list (vsOps env) \<lparr>f_layer = Some lay, f_tags = None, f_minImportance = None\<rparr>
                 (vectorStore st) of
            (Inl e, v') \<Rightarrow> (Inl e, st\<lparr>vectorStore := v'\<rparr>)
          | (Inr allMemories, v') \<Rightarrow>
              (let st1 = st\<lparr>vectorStore := v'\<rparr>;
                   oldMemories = filter (\<lambda>m. timestamp (metadata m) < older) allMemories
               in if length oldMemories < targetSize
                  then (Inr \<lparr>consolidated = [], c_deleted = [],
                             summary = ''Not enough old memories to consolidate. Found ''
                                       @ showNat (length oldMemories) @ '', need at least ''
                                       @ showNat targetSize\<rparr>, st1)
                  else
                    (let sortedMemories = sort_key (\<lambda>m. - calculateMemoryScore env now m) oldMemories;
                         toConsolidate = drop targetSize sortedMemories
                     in (case groupByTags toConsolidate of
                           Inl e \<Rightarrow> (Inl e, st1)
                         | Inr grouped \<Rightarrow>
                             (case consolidateGroups env uuids now 0 (objectEntries grouped) ([], []) st1 of
                                (Inl e, st2) \<Rightarrow> (Inl e, st2)
                              | (Inr (cons, del), st2) \<Rightarrow>
                                  (Inr \<lparr>consolidated = cons, c_deleted = del,
                                        summary = ''Consolidated '' @ showNat (length cons)
                                                  @ '' memories from '' @ showNat (length del)
                                                  @ '' old memories''\<rparr>, st2)))))))"

subsection \<open>Forgetting\<close>

text \<open>
  The tests \<open>if (options.memoryId)\<close>, \<open>options.olderThan || options.layer\<close> and
  \<open>options.reason || ...\<close> are tests of truthiness: an absent option, the empty string and
  the number 0 all fail them. A layer name is never empty.
\<close>

definition truthyNumber :: "real option \<Rightarrow> bool" where
  "truthyNumber x = (case x of None \<Rightarrow> False | Some n \<Rightarrow> n \<noteq> 0)"

definition truthyString :: "string option \<Rightarrow> bool" where
  "truthyString x = (case x of None \<Rightarrow> False | Some s \<Rightarrow> s \<noteq> [])"

definition forgetById ::
  "('v, 'p) env \<Rightarrow> ForgetOptions \<Rightarrow> ('v, 'p) MemoryManager
     \<Rightarrow> (error + string list \<times> string list) \<times> ('v, 'p) MemoryManager" where
  "forgetById env options st =
     (if truthyString (memoryId options)
      then (case vs_delete (vsOps env) (the (memoryId options)) (vectorStore st) of
              (Inl e, v') \<Rightarrow> (Inl e, st\<lparr>vectorStore := v'\<rparr>)
            | (Inr success, v') \<Rightarrow>
                (Inr (if success
                      then ([the (memoryId options)],
                            [if truthyString (fo_reason options) then the (fo_reason options)
                             else ''Explicit deletion''])
                      else ([], [])),
                 st\<lparr>vectorStore := v',
                    workingMemory := mapDelete (the (memoryId options)) (workingMemory st)\<rparr>))
      else (Inr ([], []), st))"

definition forgetKeeps :: "ForgetOptions \<Rightarrow> Memory \<Rightarrow> bool" where
  "forgetKeeps options m =
     (truthyNumber (olderThan options) \<and> timestamp (metadata m) \<ge> the (olderThan options))"

definition joinedReasons :: "string list \<Rightarrow> string" where
  "joinedReasons reasons =
     (if joinWith ''; '' reasons = [] then ''No memories matched criteria''
      else joinWith ''; '' reasons)"

definition forget ::
  "('v, 'p) env \<Rightarrow> ForgetOptions \<Rightarrow> ('v, 'p) MemoryManager
     \<Rightarrow> (error + ForgetResult) \<times> ('v, 'p) MemoryManager" where
  "forget env options st =
     (case forgetById env options st of
        (Inl e, st1) \<Rightarrow> (Inl e, st1)
      | (Inr (del, reasons), st1) \<Rightarrow>
          (if truthyNumber (olderThan options) \<or> fo_layer options \<noteq> None
           then (case vs_list (vsOps env)
                        \<lparr>f_layer = fo_layer options, f_tags = None, f_minImportance = None\<rparr>
                        (vectorStore st1) of
                   (Inl e, v') \<Rightarrow> (Inl e, st1\<lparr>vectorStore := v'\<rparr>)
                 | (Inr memories, v') \<Rightarrow>
                     (let toDelete = filter (\<lambda>m. \<not> forgetKeeps options m) memories;
                          ids = map m_id toDelete
                      in (case vs_deleteBatch (vsOps env) ids v' of
                            (Inl e, v'') \<Rightarrow> (Inl e, st1\<lparr>vectorStore := v''\<rparr>)
                          | (Inr n, v'') \<Rightarrow>
                              (Inr \<lparr>deleted = del @ ids,
                                    reason = joinedReasons
                                      (reasons @
                                       [if truthyNumber (olderThan options)
                                        then ''Older than '' @ toLocaleDateString env (the (olderThan options))
                                        else ''Layer: '' @ (case fo_layer options of
                                                              Some l \<Rightarrow> layerName l
                                                            | None \<Rightarrow> ''undefined'')])\<rparr>,
                               st1\<lparr>vectorStore := v'',
                                   workingMemory := deleteFromWorkingMemory ids (workingMemory st1)\<rparr>))))
           else (Inr \<lparr>deleted = del, reason = joinedReasons reasons\<rparr>, st1)))"

subsection \<open>Decay and rebalancing\<close>

definition decayed :: "('v, 'p) env \<Rightarrow> real \<Rightarrow> Memory \<Rightarrow> Memory" where
  "decayed env ageDays mem =
     (let decayFactor = exp (- decayRate env * (ageDays / 30))
      in mem\<lparr>metadata := (metadata mem)
               \<lparr>importance := max 0.1 (importance (metadata mem) * decayFactor)\<rparr>\<rparr>)"

text \<open>
  An assignment to a listed record, and the lines that close the loop bodies of
  \<open>applyImportanceDecay\<close> and \<open>rebalanceLayers\<close> after it:
  \<open>await this.vectorStore.update(memory)\<close>, then
  \<open>this.workingMemory.set(memory.id, memory)\<close> when the working memory has the id.
  \<open>mem\<close> is the record after the assignment.
\<close>

definition updateThrough ::
  "('v, 'p) env \<Rightarrow> Memory \<Rightarrow> ('v, 'p) MemoryManager \<Rightarrow> (error + unit) \<times> ('v, 'p) MemoryManager" where
  "updateThrough env mem st =
     (let st0 = assignInPlace env mem st
      in (case vs_update (vsOps env) mem (vectorStore st0) of
            (Inl e, v') \<Rightarrow> (Inl e, st0\<lparr>vectorStore := v'\<rparr>)
          | (Inr u, v') \<Rightarrow>
              (Inr (),
               if mapHas (workingMemory st0) (m_id mem)
               then st0\<lparr>vectorStore := v',
                        workingMemory := mapSet (m_id mem) mem (workingMemory st0)\<rparr>
               else st0\<lparr>vectorStore := v'\<rparr>)))"

text \<open>The body of the loop of \<open>applyImportanceDecay\<close>, for one listed record.\<close>

definition decayOne ::
  "('v, 'p) env \<Rightarrow> real \<Rightarrow> Memory \<Rightarrow> ('v, 'p) MemoryManager \<Rightarrow> (error + unit) \<times> ('v, 'p) MemoryManager" where
  "decayOne env now mem st =
     (let age = now - timestamp (metadata mem);
          ageDays = age / (1000 * 60 * 60 * 24)
      in if ageDays \<ge> 1
         then updateThrough env (decayed env ageDays mem) st
         else (Inr (), st))"

fun decayLoop ::
  "('v, 'p) env \<Rightarrow> real \<Rightarrow> Memory list \<Rightarrow> ('v, 'p) MemoryManager \<Rightarrow> (error + unit) \<times> ('v, 'p) MemoryManager" where
  "decayLoop env now [] st = (Inr (), st)"
| "decayLoop env now (mem # rest) st =
     (case decayOne env now mem st of
        (Inl e, st1) \<Rightarrow> (Inl e, st1)
      | (Inr u, st1) \<Rightarrow> decayLoop env now rest st1)"

definition applyImportanceDecay ::
  "('v, 'p) env \<Rightarrow> real \<Rightarrow> ('v, 'p) MemoryManager \<Rightarrow> (error + unit) \<times> ('v, 'p) MemoryManager" where
  "applyImportanceDecay env now st =
     (case vs_list (vsOps env) noFilter (vectorStore st) of
        (Inl e, v') \<Rightarrow> (Inl e, st\<lparr>vectorStore := v'\<rparr>)
      | (Inr allMemories, v') \<Rightarrow> decayLoop env now allMemories (st\<lparr>vectorStore := v'\<rparr>))"

fun getNextLowerLayer :: "MemoryLayer \<Rightarrow> MemoryLayer" where
  "getNextLowerLayer LONG_TERM = SHORT_TERM"
| "getNextLowerLayer SHORT_TERM = WORKING"
| "getNextLowerLayer WORKING = WORKING"

text \<open>
  The assignment \<open>memory.metadata.importance = ...\<close> of \<open>rebalanceLayers\<close> for an
  expired record of the last layer is followed by no \<open>update\<close>: it is an assignment in
  place and nothing more.
\<close>

definition attenuated :: "Memory \<Rightarrow> Memory" where
  "attenuated mem =
     mem\<lparr>metadata := (metadata mem)\<lparr>importance := max 0.1 (importance (metadata mem) * 0.5)\<rparr>\<rparr>"

text \<open>The body of the loop of \<open>rebalanceLayers\<close>, for one listed record.\<close>

definition rebalanceOne ::
  "('v, 'p) env \<Rightarrow> real \<Rightarrow> Memory \<Rightarrow> ('v, 'p) MemoryManager \<Rightarrow> (error + unit) \<times> ('v, 'p) MemoryManager" where
  "rebalanceOne env now mem st =
     (let score = calculateMemoryScore env now mem;
          age = now - timestamp (metadata mem);
          lay = layer (metadata mem);
          expired = (age > ttl env lay \<and> score < 0.3);
          mem1 = (if expired \<and> lay = LONG_TERM then attenuated mem else mem);
          st1 = (if expired \<and> lay = LONG_TERM then assignInPlace env mem1 st else st);
          newLayer = (if expired
                      then (if lay = LONG_TERM then None else Some (getNextLowerLayer lay))
                      else if score > 0.8
                      then (if lay \<noteq> LONG_TERM then Some LONG_TERM else None)
                      else None)
      in (case newLayer of
            None \<Rightarrow> (Inr (), st1)
          | Some l \<Rightarrow>
              (if l \<noteq> lay
               then updateThrough env (mem1\<lparr>metadata := (metadata mem1)\<lparr>layer := l\<rparr>\<rparr>) st1
               else (Inr (), st1))))"

fun rebalanceLoop ::
  "('v, 'p) env \<Rightarrow> real \<Rightarrow> Memory list \<Rightarrow> ('v, 'p) MemoryManager \<Rightarrow> (error + unit) \<times> ('v, 'p) MemoryManager" where
  "rebalanceLoop env now [] st = (Inr (), st)"
| "rebalanceLoop env now (mem # rest) st =
     (case rebalanceOne env now mem st of
        (Inl e, st1) \<Rightarrow> (Inl e, st1)
      | (Inr u, st1) \<Rightarrow> rebalanceLoop env now rest st1)"

definition rebalanceLayers ::
  "('v, 'p) env \<Rightarrow> real \<Rightarrow> ('v, 'p) MemoryManager \<Rightarrow> (error + unit) \<times> ('v, 'p) MemoryManager" where
  "rebalanceLayers env now st =
     (case vs_list (vsOps env) noFilter (vectorStore st) of
        (Inl e, v') \<Rightarrow> (Inl e, st\<lparr>vectorStore := v'\<rparr>)
      | (Inr allMemories, v') \<Rightarrow> rebalanceLoop env now allMemories (st\<lparr>vectorStore := v'\<rparr>))"

subsection \<open>The boundary check on importance (validation.ts)\<close>

definition validateImportance :: "real \<Rightarrow> error + real" where
  "validateImportance imp =
     (if imp < 0 \<or> imp > 1 then Inl (Error ''Importance must be between 0 and 1'')
      else Inr imp)"

section \<open>The managed vector store (vectorstore/pinecone.ts)\<close>

text \<open>
  The adapter for the managed index. The index itself is a remote service, reached through the
  client of the package; the adapter is written against five requests of that client, which
  are taken as given here: a record of the requests over the state \<^typ>\<open>'i\<close> of the
  service. A request names its namespace; \<open>query\<close> and \<open>fetch\<close> read and leave the
  service as it is. A field of the metadata of a vector may be absent, and so may the values,
  the metadata and the score of a match; a query answered without \<open>matches\<close> is a
  query answered with none.
\<close>

record PineconeMetadata =
  pm_content :: "string option"
  pm_timestamp :: "real option"
  pm_importance :: "real option"
  pm_source :: "MemorySource option"
  pm_tags :: "string option"
  pm_accessCount :: "nat option"
  pm_lastAccessed :: "real option"
  pm_layer :: "MemoryLayer option"

record PineconeVector =
  pv_id :: string
  pv_values :: "real list option"
  pv_metadata :: "PineconeMetadata option"

record ScoredPineconeVector = PineconeVector +
  sv_score :: "real option"

datatype PineconeFilter =
    LayerEq MemoryLayer
  | TagsContains string
  | ImportanceGte real
  | And "PineconeFilter list"

record QueryOptions =
  qo_vector :: "real list"
  qo_topK :: nat
  qo_includeMetadata :: bool
  qo_includeValues :: bool
  qo_filter :: "PineconeFilter option"

record 'i PineconeIndex =
  ix_upsert :: "string \<Rightarrow> PineconeVector list \<Rightarrow> 'i \<Rightarrow> (error + unit) \<times> 'i"
  ix_query :: "string \<Rightarrow> QueryOptions \<Rightarrow> 'i \<Rightarrow> error + ScoredPineconeVector list"
  ix_fetch :: "string \<Rightarrow> string list \<Rightarrow> 'i \<Rightarrow> error + (string \<times> PineconeVector) list"
  ix_deleteOne :: "string \<Rightarrow> string \<Rightarrow> 'i \<Rightarrow> (error + unit) \<times> 'i"
  ix_deleteMany :: "string \<Rightarrow> string list \<Rightarrow> 'i \<Rightarrow> (error + unit) \<times> 'i"

definition NAMESPACE :: string where
  "NAMESPACE = ''memory-mcp''"

text \<open>The namespace of a request made on the index itself, not through \<open>namespace(...)\<close>.\<close>

definition defaultNamespace :: string where
  "defaultNamespace = []"

definition memoryToVector :: "Memory \<Rightarrow> PineconeVector" where
  "memoryToVector mem =
     \<lparr>pv_id = m_id mem,
      pv_values = Some (orElse (embedding mem) []),
      pv_metadata = Some
        \<lparr>pm_content = Some (content mem),
         pm_timestamp = Some (timestamp (metadata mem)),
         pm_importance = Some (importance (metadata mem)),
         pm_source = Some (source (metadata mem)),
         pm_tags = Some (joinWith '','' (tags (metadata mem))),
         pm_accessCount = Some (accessCount (metadata mem)),
         pm_lastAccessed = Some (lastAccessed (metadata mem)),
         pm_layer = Some (layer (metadata mem))\<rparr>\<rparr>"

text \<open>\<open>x || d\<close> on a number and on a string: 0 and the empty string count as absent.\<close>

definition orNumber :: "real option \<Rightarrow> real \<Rightarrow> real" where
  "orNumber x d = (case x of None \<Rightarrow> d | Some n \<Rightarrow> if n = 0 then d else n)"

definition orString :: "string option \<Rightarrow> string \<Rightarrow> string" where
  "orString x d = (case x of None \<Rightarrow> d | Some s \<Rightarrow> if s = [] then d else s)"

fun splitOn :: "char \<Rightarrow> string \<Rightarrow> string list" where
  "splitOn c [] = [] # []"
| "splitOn c (x # xs) =
     (if x = c then [] # splitOn c xs
      else (case splitOn c xs of
              [] \<Rightarrow> [x] # []
            | w # ws \<Rightarrow> (x # w) # ws))"

definition noMetadata :: PineconeMetadata where
  "noMetadata =
     \<lparr>pm_content = None, pm_timestamp = None, pm_importance = None, pm_source = None,
      pm_tags = None, pm_accessCount = None, pm_lastAccessed = None, pm_layer = None\<rparr>"

text \<open>\<open>clock\<close> is the reading of \<open>Date.now()\<close> that fills in an absent time.\<close>

definition vectorToMemory :: "real \<Rightarrow> PineconeVector \<Rightarrow> Memory" where
  "vectorToMemory clock vector =
     (let md = orElse (pv_metadata vector) noMetadata
      in \<lparr>m_id = pv_id vector,
          content = orString (pm_content md) [],
          embedding = pv_values vector,
          metadata =
            \<lparr>timestamp = orNumber (pm_timestamp md) clock,
             importance = orNumber (pm_importance md) 0.5,
             source = orElse (pm_source md) AGENT,
             tags = (case pm_tags md of
                       None \<Rightarrow> []
                     | Some s \<Rightarrow> filter (\<lambda>t. t \<noteq> []) (splitOn (CHR '','') s)),
             accessCount = orElse (pm_accessCount md) 0,
             lastAccessed = orNumber (pm_lastAccessed md) clock,
             layer = orElse (pm_layer md) SHORT_TERM,
             embeddingModel = None\<rparr>\<rparr>)"

definition pvs_buildFilter :: "Filter \<Rightarrow> PineconeFilter option" where
  "pvs_buildFilter f =
     (let conditions =
            (case f_layer f of None \<Rightarrow> [] | Some l \<Rightarrow> [LayerEq l])
            @ (case f_tags f of None \<Rightarrow> [] | Some ts \<Rightarrow> map TagsContains ts)
            @ (case f_minImportance f of None \<Rightarrow> [] | Some x \<Rightarrow> [ImportanceGte x])
      in (case conditions of
            [] \<Rightarrow> None
          | [c] \<Rightarrow> Some c
          | _ \<Rightarrow> Some (And conditions)))"

definition pvs_store :: "'i PineconeIndex \<Rightarrow> Memory \<Rightarrow> 'i \<Rightarrow> (error + unit) \<times> 'i" where
  "pvs_store client mem i =
     (case embedding mem of
        None \<Rightarrow> (Inl (Error ''Memory must have an embedding to store''), i)
      | Some e \<Rightarrow> ix_upsert client NAMESPACE [memoryToVector mem] i)"

definition pvs_search ::
  "'i PineconeIndex \<Rightarrow> real \<Rightarrow> real list \<Rightarrow> nat \<Rightarrow> Filter \<Rightarrow> 'i
     \<Rightarrow> (error + MemorySearchResult list) \<times> 'i" where
  "pvs_search client clock e k f i =
     (case ix_query client NAMESPACE
             \<lparr>qo_vector = e, qo_topK = k, qo_includeMetadata = True, qo_includeValues = True,
              qo_filter = pvs_buildFilter f\<rparr> i of
        Inl err \<Rightarrow> (Inl err, i)
      | Inr matches \<Rightarrow>
          (Inr (map (\<lambda>match.
                   (let mem = vectorToMemory clock
                                \<lparr>pv_id = pv_id match, pv_values = pv_values match,
                                 pv_metadata = pv_metadata match\<rparr>
                    in \<lparr>r_id = m_id mem, r_content = content mem,
                        relevance = orNumber (sv_score match) 0,
                        r_metadata = metadata mem\<rparr>)) matches), i))"

definition pvs_get ::
  "'i PineconeIndex \<Rightarrow> real \<Rightarrow> string \<Rightarrow> 'i \<Rightarrow> (error + Memory option) \<times> 'i" where
  "pvs_get client clock k i =
     (case ix_fetch client NAMESPACE [k] i of
        Inl err \<Rightarrow> (Inr None, i)
      | Inr records \<Rightarrow>
          (case mapGet records k of
             None \<Rightarrow> (Inr None, i)
           | Some vector \<Rightarrow>
               (Inr (Some (vectorToMemory clock
                             \<lparr>pv_id = pv_id vector, pv_values = pv_values vector,
                              pv_metadata = pv_metadata vector\<rparr>)), i)))"

definition pvs_delete :: "'i PineconeIndex \<Rightarrow> string \<Rightarrow> 'i \<Rightarrow> (error + bool) \<times> 'i" where
  "pvs_delete client k i =
     (case ix_deleteOne client defaultNamespace k i of
        (Inl err, i') \<Rightarrow> (Inr False, i')
      | (Inr u, i') \<Rightarrow> (Inr True, i'))"

definition pvs_deleteBatch :: "'i PineconeIndex \<Rightarrow> string list \<Rightarrow> 'i \<Rightarrow> (error + nat) \<times> 'i" where
  "pvs_deleteBatch client ids i =
     (case ix_deleteMany client defaultNamespace ids i of
        (Inl err, i') \<Rightarrow> (Inr 0, i')
      | (Inr u, i') \<Rightarrow> (Inr (length ids), i'))"

text \<open>
  \<open>list\<close> is a search with the zero vector; what it returns are new objects of the three
  fields \<open>id\<close>, \<open>content\<close> and \<open>metadata\<close>, without \<open>embedding\<close>.
\<close>

definition pvs_list ::
  "'i PineconeIndex \<Rightarrow> nat \<Rightarrow> real \<Rightarrow> Filter \<Rightarrow> 'i \<Rightarrow> (error + Memory list) \<times> 'i" where
  "pvs_list client dimensions clock f i =
     (case pvs_search client clock (replicate dimensions 0) 1000 f i of
        (Inl err, i') \<Rightarrow> (Inr [], i')
      | (Inr result, i') \<Rightarrow>
          (Inr (map (\<lambda>r. \<lparr>m_id = r_id r, content = r_content r, embedding = None,
                          metadata = r_metadata r\<rparr>) result), i'))"

definition pvs_update :: "'i PineconeIndex \<Rightarrow> Memory \<Rightarrow> 'i \<Rightarrow> (error + unit) \<times> 'i" where
  "pvs_update client mem i = pvs_store client mem i"

definition pineconeVectorStore :: "'i PineconeIndex \<Rightarrow> nat \<Rightarrow> real \<Rightarrow> 'i IVectorStore" where
  "pineconeVectorStore client dimensions clock =
     \<lparr>vs_store = pvs_store client, vs_search = pvs_search client clock,
      vs_get = pvs_get client clock, vs_delete = pvs_delete client,
      vs_deleteBatch = pvs_deleteBatch client, vs_list = pvs_list client dimensions clock,
      vs_update = pvs_update client, vs_inPlace = None\<rparr>"

section \<open>Notions used in the statements\<close>

text \<open>
  What holds of every store the in-process adapter builds: a \<open>Map\<close> has no key twice,
  and both writers, \<open>store\<close> and \<open>update\<close>, file a record under its own \<open>id\<close>.
\<close>

definition storeWf :: "MemoryVectorStore \<Rightarrow> bool" where
  "storeWf v = (distinct (map fst v) \<and> list_all (\<lambda>kv. m_id (memory (snd kv)) = fst kv) v)"

text \<open>The working memory files every record under its own \<open>id\<close>, as all its writers do.\<close>

definition cacheWf :: "(string \<times> Memory) list \<Rightarrow> bool" where
  "cacheWf wm = list_all (\<lambda>kv. m_id (snd kv) = fst kv) wm"

text \<open>The importance that the store holds for an id.\<close>

definition importanceAt :: "MemoryVectorStore \<Rightarrow> string \<Rightarrow> real option" where
  "importanceAt v i = map_option (\<lambda>s. importance (metadata (memory s))) (mapGet v i)"

text \<open>The range of importance that the boundary check admits, for a record and for a state.\<close>

definition importanceOk :: "Memory \<Rightarrow> bool" where
  "importanceOk m = (0 \<le> importance (metadata m) \<and> importance (metadata m) \<le> 1)"

definition importanceInvariant :: "(MemoryVectorStore, 'p) MemoryManager \<Rightarrow> bool" where
  "importanceInvariant st =
     (list_all (\<lambda>kv. importanceOk (memory (snd kv))) (vectorStore st) \<and>
      list_all (\<lambda>kv. importanceOk (snd kv)) (workingMemory st))"

text \<open>
  The age in days that \<open>applyImportanceDecay\<close> computes, and the entry it leaves in the
  in-process store for an entry it found.
\<close>

definition ageDaysOf :: "real \<Rightarrow> Memory \<Rightarrow> real" where
  "ageDaysOf now mem = (now - timestamp (metadata mem)) / (1000 * 60 * 60 * 24)"

definition decayEntry :: "('v, 'p) env \<Rightarrow> real \<Rightarrow> StoredMemory \<Rightarrow> StoredMemory" where
  "decayEntry env now s =
     (if ageDaysOf now (memory s) \<ge> 1
      then \<lparr>memory = decayed env (ageDaysOf now (memory s)) (memory s),
            sm_embedding = (case embedding (memory s) of Some e \<Rightarrow> e | None \<Rightarrow> sm_embedding s)\<rparr>
      else s)"

text \<open>
  The sums of the loop of \<open>cosineSimilarity\<close> without rounding, and the multiples of a
  vector.
\<close>

definition dot :: "real list \<Rightarrow> real list \<Rightarrow> real" where
  "dot a b = sum_list (map2 (*) a b)"

definition scaled :: "real \<Rightarrow> real list \<Rightarrow> real list" where
  "scaled t a = map ((*) t) a"

text \<open>
  The standard model of floating-point arithmetic: a rounding of relative error at most
  \<open>u\<close>. Rounding to the nearest double meets it with \<open>u = 2^-53\<close> on every result
  that neither overflows nor underflows, so a run of \<open>cosineSimilarity\<close> in which no
  result does is a run under such a rounding. A rounding keeps the sign when it sends no
  number from 0 upwards below 0; rounding to the nearest double does.
\<close>

definition roundsWithin :: "real \<Rightarrow> (real \<Rightarrow> real) \<Rightarrow> bool" where
  "roundsWithin u rnd = (\<forall>x. \<bar>rnd x - x\<bar> \<le> u * \<bar>x\<bar>)"

definition keepsSign :: "(real \<Rightarrow> real) \<Rightarrow> bool" where
  "keepsSign rnd = (\<forall>x. 0 \<le> x \<longrightarrow> 0 \<le> rnd x)"

text \<open>
  One of the three sums of the loop of \<open>cosineSimilarity\<close>, alone: what \<open>+=\<close> has
  stored after the terms \<open>ts\<close>, each term rounded and each sum rounded.
\<close>

definition accumulate :: "(real \<Rightarrow> real) \<Rightarrow> real list \<Rightarrow> real \<Rightarrow> real" where
  "accumulate rnd ts acc = foldl (\<lambda>s t. rnd (s + rnd t)) acc ts"

section \<open>Concrete configurations\<close>

text \<open>
  The defaults of config.ts, around a given store adapter and embedding provider. The two
  locale-dependent texts are fixed to simple renderings; no statement below depends on them.
\<close>

definition defaultEnv :: "'v IVectorStore \<Rightarrow> 'p IEmbeddingProvider \<Rightarrow> ('v, 'p) env" where
  "defaultEnv vs ep =
     \<lparr>vsOps = vs, epOps = ep, decayRate = 0.1, consolidationAge = 2592000000,
      ttl = (\<lambda>l. case l of WORKING \<Rightarrow> 1800000 | SHORT_TERM \<Rightarrow> 604800000
                   | LONG_TERM \<Rightarrow> 31536000000),
      consolidateMemories = (\<lambda>ms. joinWith '' | '' (map content ms)),
      toLocaleDateString = (\<lambda>t. showNat (nat \<lfloor>t\<rfloor>))\<rparr>"

text \<open>
  The rounding of a run in which every intermediate result is a double already (the runs
  below compute with 0, 1 and -1 only): it changes nothing.
\<close>

definition noRounding :: "real \<Rightarrow> real" where
  "noRounding x = x"

text \<open>A stateless provider that embeds every text as the same vector.\<close>

definition constantProvider :: "real list \<Rightarrow> unit IEmbeddingProvider" where
  "constantProvider e = \<lparr>embed = (\<lambda>text p. (Inr e, p))\<rparr>"

text \<open>An adapter whose \<open>update\<close> rejects for the records of the given ids.\<close>

definition failingUpdates :: "string set \<Rightarrow> 'v IVectorStore \<Rightarrow> 'v IVectorStore" where
  "failingUpdates bad vs =
     vs\<lparr>vs_update := (\<lambda>m v. if m_id m \<in> bad then (Inl (Error ''fetch failed''), v)
                             else vs_update vs m v)\<rparr>"

text \<open>An adapter whose backend has become unreachable for writes: reads answer, writes reject.\<close>

definition unreachableForWrites :: "'v IVectorStore \<Rightarrow> 'v IVectorStore" where
  "unreachableForWrites vs =
     vs\<lparr>vs_store := (\<lambda>m v. (Inl (Error ''fetch failed''), v)),
        vs_update := (\<lambda>m v. (Inl (Error ''fetch failed''), v))\<rparr>"

text \<open>The manager at start, and calls without options.\<close>

definition emptyManager :: "(MemoryVectorStore, unit) MemoryManager" where
  "emptyManager = \<lparr>vectorStore = [], embeddingProvider = (), workingMemory = []\<rparr>"

definition noOptions :: MemoryStoreOptions where
  "noOptions = \<lparr>o_importance = None, o_tags = None, o_source = None, o_layer = None\<rparr>"

definition defaultSearch :: MemorySearchOptions where
  "defaultSearch = \<lparr>limit = None, layerFilter = None, minRelevance = None, s_tags = None\<rparr>"

text \<open>
  The manager after \<open>store('Test 1', {layer: working})\<close>,
  \<open>store('Test 2', {layer: short-term})\<close> and \<open>store('Test 3', {layer: long-term})\<close>
  on the in-process store, as in the test of the layer filter.
\<close>

definition threeLayers :: "(MemoryVectorStore, unit) MemoryManager" where
  "threeLayers =
     snd (store (defaultEnv (memoryVectorStore noRounding) (constantProvider [1])) ''id-3'' 1000 ''Test 3''
            (noOptions\<lparr>o_layer := Some LONG_TERM\<rparr>)
       (snd (store (defaultEnv (memoryVectorStore noRounding) (constantProvider [1])) ''id-2'' 1000 ''Test 2''
            (noOptions\<lparr>o_layer := Some SHORT_TERM\<rparr>)
         (snd (store (defaultEnv (memoryVectorStore noRounding) (constantProvider [1])) ''id-1'' 1000 ''Test 1''
            (noOptions\<lparr>o_layer := Some WORKING\<rparr>) emptyManager)))))"

text \<open>
  The manager after \<open>store('A', {importance: 1})\<close> at time 0 on the in-process store;
  the time 2592000000 is thirty days later.
\<close>

definition agedRecord :: "(MemoryVectorStore, unit) MemoryManager" where
  "agedRecord =
     snd (store (defaultEnv (memoryVectorStore noRounding) (constantProvider [1])) ''id-1'' 0 ''A''
            (noOptions\<lparr>o_importance := Some 1\<rparr>) emptyManager)"

text \<open>
  A stand-in for the managed index, for the runs below: it keeps the vectors it is sent, under
  namespace and id, and answers a query with the vectors of the namespace, up to \<open>topK\<close>,
  without a score. It does not evaluate filters; no run below passes one.
\<close>

type_synonym StandInIndex = "((string \<times> string) \<times> PineconeVector) list"

definition standInIndex :: "StandInIndex PineconeIndex" where
  "standInIndex =
     \<lparr>ix_upsert = (\<lambda>ns vs i. (Inr (), foldl (\<lambda>j v. mapSet (ns, pv_id v) v j) i vs)),
      ix_query = (\<lambda>ns opts i.
         Inr (map (\<lambda>kv. \<lparr>pv_id = pv_id (snd kv), pv_values = pv_values (snd kv),
                          pv_metadata = pv_metadata (snd kv), sv_score = None\<rparr>)
                (take (qo_topK opts) (filter (\<lambda>kv. fst (fst kv) = ns) i)))),
      ix_fetch = (\<lambda>ns ids i.
         Inr (map (\<lambda>kv. (snd (fst kv), snd kv))
                (filter (\<lambda>kv. fst (fst kv) = ns \<and> snd (fst kv) \<in> set ids) i))),
      ix_deleteOne = (\<lambda>ns k i. (Inr (), mapDelete (ns, k) i)),
      ix_deleteMany = (\<lambda>ns ids i. (Inr (), foldl (\<lambda>j k. mapDelete (ns, k) j) i ids))\<rparr>"

text \<open>
  The manager over the managed store (one dimension) after \<open>store('A', {importance: 1})\<close>
  at time 1000; the time 2592001000 is thirty days later.
\<close>

definition managedEnv :: "real \<Rightarrow> (StandInIndex, unit) env" where
  "managedEnv clock = defaultEnv (pineconeVectorStore standInIndex 1 clock) (constantProvider [1])"

definition agedManagedRecord :: "(StandInIndex, unit) MemoryManager" where
  "agedManagedRecord =
     snd (store (managedEnv 1000) ''id-1'' 1000 ''A'' (noOptions\<lparr>o_importance := Some 1\<rparr>)
            \<lparr>vectorStore = [], embeddingProvider = (), workingMemory = []\<rparr>)"

text \<open>The record as the managed store lists it: without \<open>embedding\<close>.\<close>

definition listedRecord :: Memory where
  "listedRecord =
     \<lparr>m_id = ''id-1'', content = ''A'', embedding = None,
      metadata = \<lparr>timestamp = 1000, importance = 1, source = AGENT, tags = [], accessCount = 0,
                  lastAccessed = 1000, layer = LONG_TERM, embeddingModel = None\<rparr>\<rparr>"

text \<open>
  Rounding to the nearest double, as far as the run of \<open>cosineSimilarity\<close> on
  \<open>[1, 1]\<close> and \<open>[1, 1]\<close> needs it: at the square root of 2, at the square of the double
  of that root, and at the quotient of 2 by the double of that square. The doubles are
  \<open>6369051672525773 / 2^52\<close>, \<open>2 + 2^-51\<close> and \<open>1 - 2^-52\<close>. The other results
  of that run, 1 and 2, are doubles already.
\<close>

definition roundingOfSelfSimilarity :: "real \<Rightarrow> real" where
  "roundingOfSelfSimilarity x =
     (if x * x = 2 \<and> 0 < x then 6369051672525773 / 4503599627370496
      else if x = 6369051672525773 / 4503599627370496 * (6369051672525773 / 4503599627370496)
      then 4503599627370497 / 2251799813685248
      else if x = 2 / (4503599627370497 / 2251799813685248)
      then 4503599627370495 / 4503599627370496
      else x)"

text \<open>
  The in-process store holding one record of embedding \<open>[1, 1]\<close>, and the result of
  searching it for \<open>[1, 1]\<close> in doubles.
\<close>

definition onesStore :: MemoryVectorStore where
  "onesStore = snd (mvs_store (newMemory ''id-1'' 1000 ''A'' [1, 1] noOptions) [])"

definition onesResult :: MemorySearchResult where
  "onesResult =
     \<lparr>r_id = ''id-1'', r_content = ''A'', relevance = 4503599627370495 / 4503599627370496,
      r_metadata = metadata (newMemory ''id-1'' 1000 ''A'' [1, 1] noOptions)\<rparr>"

section \<open>Properties\<close>

subsection \<open>Maps\<close>

lemma mapGet_mapSet_same: "mapGet (mapSet k v m) k = Some v"
  by (induction m) (auto simp: mapGet_def)

lemma mapSet_mapSet: "mapSet k x (mapSet k y m) = mapSet k x m"
  by (induction m) auto

lemma mapHas_mapSet: "mapHas (mapSet k x m) k"
  using mapGet_mapSet_same [of k x m] by (simp add: mapHas_def mapGet_def)

lemmas run_defs = store_def newMemory_def defaultEnv_def memoryVectorStore_def
  constantProvider_def emptyManager_def noOptions_def mvs_store_def orElse_def
  determineInitialLayer_def mapGet_def unreachableForWrites_def noRounding_def Let_def

subsection \<open>Initial layer\<close>

lemma store_returns:
  assumes "embed (epOps env) text (embeddingProvider st) = (Inr emb, p')"
      and "vs_store (vsOps env) (newMemory newId now text emb options) (vectorStore st) = (Inr (), v')"
  shows "store env newId now text options st
           = (Inr (newMemory newId now text emb options),
              st\<lparr>embeddingProvider := p',
                 workingMemory := mapSet newId (newMemory newId now text emb options) (workingMemory st),
                 vectorStore := v'\<rparr>)"
  using assms by (simp add: store_def Let_def)

text \<open>
  C2. Whenever \<open>store\<close> returns a record: if \<open>options.layer\<close> is supplied the record is
  in that layer; otherwise, with the effective importance \<open>options.importance ?? 0.5\<close>, it
  is in long-term when the importance is at least 0.8, in short-term when it is at least 0.5
  and below 0.8, and in working when it is below 0.5.
\<close>

theorem store_layer:
  assumes "store env newId now text options st = (Inr mem, st')"
  shows "(\<forall>l. o_layer options = Some l \<longrightarrow> layer (metadata mem) = l) \<and>
         (o_layer options = None \<longrightarrow>
            (orElse (o_importance options) 0.5 \<ge> 0.8 \<longrightarrow> layer (metadata mem) = LONG_TERM) \<and>
            (orElse (o_importance options) 0.5 \<ge> 0.5 \<and> orElse (o_importance options) 0.5 < 0.8
               \<longrightarrow> layer (metadata mem) = SHORT_TERM) \<and>
            (orElse (o_importance options) 0.5 < 0.5 \<longrightarrow> layer (metadata mem) = WORKING))"
  using assms
  by (auto simp: store_def newMemory_def Let_def determineInitialLayer_def orElse_def
           split: prod.splits sum.splits option.splits if_splits)

theorem store_layer_witness:
  "\<exists>mem st'. store (defaultEnv (memoryVectorStore noRounding) (constantProvider [1])) ''id-1'' 1000 ''B''
                 (noOptions\<lparr>o_importance := Some 0.6\<rparr>) emptyManager = (Inr mem, st')
     \<and> layer (metadata mem) = SHORT_TERM"
proof -
  obtain mem st' where h:
    "store (defaultEnv (memoryVectorStore noRounding) (constantProvider [1])) ''id-1'' 1000 ''B''
       (noOptions\<lparr>o_importance := Some 0.6\<rparr>) emptyManager = (Inr mem, st')"
    by (simp add: run_defs)
  from store_layer [OF h] have "layer (metadata mem) = SHORT_TERM"
    by (simp add: orElse_def noOptions_def)
  with h show ?thesis by blast
qed

subsection \<open>A failed write of \<open>store\<close>\<close>

text \<open>
  C7, as the code has it. \<open>store\<close> puts the new record into the working memory before it
  calls the vector store and has no handler around the call: when the write rejects,
  \<open>store\<close> rejects with the same error, the record stays in the working memory, and the
  vector store is as the failed call left it.
\<close>

theorem store_failure_leaves_cache_entry:
  assumes "embed (epOps env) text (embeddingProvider st) = (Inr emb, p')"
      and "vs_store (vsOps env) (newMemory newId now text emb options) (vectorStore st) = (Inl e, v')"
  shows "fst (store env newId now text options st) = Inl e \<and>
         mapGet (workingMemory (snd (store env newId now text options st))) newId
           = Some (newMemory newId now text emb options) \<and>
         vectorStore (snd (store env newId now text options st)) = v'"
  using assms by (simp add: store_def Let_def mapGet_mapSet_same)

theorem store_failure_leaves_cache_entry_witness:
  "fst (store (defaultEnv (unreachableForWrites (memoryVectorStore noRounding)) (constantProvider [1]))
          ''id-1'' 1000 ''A'' noOptions emptyManager)
     = Inl (Error ''fetch failed'') \<and>
   mapGet (workingMemory (snd (store (defaultEnv (unreachableForWrites (memoryVectorStore noRounding))
          (constantProvider [1])) ''id-1'' 1000 ''A'' noOptions emptyManager))) ''id-1''
     = Some (newMemory ''id-1'' 1000 ''A'' [1] noOptions)"
proof -
  have a: "embed (epOps (defaultEnv (unreachableForWrites (memoryVectorStore noRounding)) (constantProvider [1])))
             ''A'' (embeddingProvider emptyManager) = (Inr [1], ())"
    by (simp add: defaultEnv_def constantProvider_def)
  have b: "vs_store (vsOps (defaultEnv (unreachableForWrites (memoryVectorStore noRounding)) (constantProvider [1])))
             (newMemory ''id-1'' 1000 ''A'' [1] noOptions)
             (vectorStore emptyManager) = (Inl (Error ''fetch failed''), [])"
    by (simp add: defaultEnv_def unreachableForWrites_def emptyManager_def)
  from store_failure_leaves_cache_entry [OF a b] show ?thesis by simp
qed

text \<open>
  The claim as stated fails: the write of the vector store rejects, the vector store holds
  no record, and the working memory holds the new one.
\<close>

theorem store_failure_counterexample:
  "fst (store (defaultEnv (unreachableForWrites (memoryVectorStore noRounding)) (constantProvider [1]))
          ''id-1'' 1000 ''A'' noOptions emptyManager) = Inl (Error ''fetch failed'')
   \<and> vectorStore (snd (store (defaultEnv (unreachableForWrites (memoryVectorStore noRounding))
          (constantProvider [1])) ''id-1'' 1000 ''A'' noOptions emptyManager)) = []
   \<and> mapGet (workingMemory (snd (store (defaultEnv (unreachableForWrites (memoryVectorStore noRounding))
          (constantProvider [1])) ''id-1'' 1000 ''A'' noOptions emptyManager))) ''id-1'' \<noteq> None"
  by (simp add: run_defs)

subsection \<open>Consolidation with too few candidates\<close>

text \<open>
  C8. On the in-process store: when the records of the chosen layer with
  \<open>timestamp < olderThan\<close> are fewer than \<open>targetSize\<close>, \<open>consolidate\<close> returns empty
  \<open>consolidated\<close> and \<open>deleted\<close> lists and the summary that names both numbers, and the
  state of the manager (vector store and working memory) is the one before the call.
\<close>

theorem consolidate_too_few:
  assumes "vsOps env = memoryVectorStore rnd"
      and "length [m \<leftarrow> map memory (mapValues (vectorStore st)).
                     layer (metadata m) = orElse (co_layer options) SHORT_TERM \<and>
                     timestamp (metadata m) < orElse (co_olderThan options) (now - consolidationAge env)]
             < orElse (co_targetSize options) 50"
  shows "consolidate env uuids now options st =
           (Inr \<lparr>consolidated = [], c_deleted = [],
                 summary = ''Not enough old memories to consolidate. Found ''
                   @ showNat (length [m \<leftarrow> map memory (mapValues (vectorStore st)).
                        layer (metadata m) = orElse (co_layer options) SHORT_TERM \<and>
                        timestamp (metadata m) < orElse (co_olderThan options) (now - consolidationAge env)])
                   @ '', need at least '' @ showNat (orElse (co_targetSize options) 50)\<rparr>, st)"
  using assms
  by (simp add: consolidate_def memoryVectorStore_def mvs_list_def listKeeps_def Let_def
        del: showNat.simps)

theorem consolidate_too_few_witness:
  "consolidate (defaultEnv (memoryVectorStore noRounding) (constantProvider [1])) (\<lambda>k. ''new'') 5000000000
      \<lparr>co_olderThan = None, co_targetSize = None, co_layer = None\<rparr> threeLayers
   = (Inr \<lparr>consolidated = [], c_deleted = [],
           summary = ''Not enough old memories to consolidate. Found 1, need at least 50''\<rparr>,
      threeLayers)"
proof -
  have v: "vsOps (defaultEnv (memoryVectorStore noRounding) (constantProvider [1])) = memoryVectorStore noRounding"
    by (simp add: defaultEnv_def)
  have c: "[m \<leftarrow> map memory (mapValues (vectorStore threeLayers)).
             layer (metadata m)
               = orElse (co_layer \<lparr>co_olderThan = None, co_targetSize = None, co_layer = None\<rparr>) SHORT_TERM \<and>
             timestamp (metadata m)
               < orElse (co_olderThan \<lparr>co_olderThan = None, co_targetSize = None, co_layer = None\<rparr>)
                   (5000000000 - consolidationAge (defaultEnv (memoryVectorStore noRounding) (constantProvider [1])))]
           = [newMemory ''id-2'' 1000 ''Test 2'' [1] (noOptions\<lparr>o_layer := Some SHORT_TERM\<rparr>)]"
    by (simp add: threeLayers_def run_defs mapValues_def)
  show ?thesis
    using consolidate_too_few [OF v, where st = threeLayers
        and options = "\<lparr>co_olderThan = None, co_targetSize = None, co_layer = None\<rparr>"
        and now = 5000000000 and uuids = "\<lambda>k. ''new''"]
    unfolding c by (simp add: orElse_def)
qed

subsection \<open>A filter of several layers\<close>

text \<open>
  C3, at a concrete input. \<open>search\<close> hands only \<open>layerFilter[0]\<close> to the backend and
  filters nothing afterwards. With one record in each layer, \<open>recall\<close>, whose filter lists
  all three layers, returns the record of the working layer alone.
\<close>

theorem recall_searches_first_layer_only:
  "map_sum id (\<lambda>res. map (\<lambda>r. (r_id r, layer (r_metadata r))) (relevantMemories res))
     (fst (recall (defaultEnv (memoryVectorStore noRounding) (constantProvider [1]))
         2000 ''Test'' None None threeLayers))
   = Inr [(''id-1'', WORKING)]"
  by (simp add: recall_def search_def buildFilter_def threeLayers_def run_defs mvs_search_def
     mapValues_def searchKeeps_def cosineSimilarity_def byRelevanceDesc_def updateAccessCount_def get_def
     mapHas_def mvs_update_def assignInPlace_def mvs_inPlace_def raisedCounters_def)

subsection \<open>Forgetting by age\<close>

text \<open>
  C9, at a concrete input. The threshold \<open>olderThan = 0\<close> passes the boundary check and is
  falsy: with a layer given, the timestamp test is skipped and the whole layer is deleted,
  here the record \<open>id-1\<close> of timestamp 1000.
\<close>

theorem forget_olderThan_zero:
  "map_prod (map_sum id deleted) (\<lambda>st. map fst (vectorStore st))
     (forget (defaultEnv (memoryVectorStore noRounding) (constantProvider [1]))
       \<lparr>memoryId = None, olderThan = Some 0, fo_layer = Some WORKING, fo_reason = None\<rparr> threeLayers)
   = (Inr [''id-1''], [''id-2'', ''id-3''])"
  by (simp add: forget_def forgetById_def truthyString_def truthyNumber_def threeLayers_def
      run_defs mvs_list_def mapValues_def listKeeps_def forgetKeeps_def mvs_deleteBatch_def
      mapHas_def mapDelete_def)

subsection \<open>Cosine similarity\<close>

lemma dot_Nil [simp]: "dot [] b = 0" "dot a [] = 0"
  by (simp_all add: dot_def)

lemma dot_Cons [simp]: "dot (x # a) (y # b) = x * y + dot a b"
  by (simp add: dot_def)

lemma dot_self_nonneg: "0 \<le> dot a a"
  by (induction a) simp_all

lemma dot_self_zero: "dot a a = 0 \<longleftrightarrow> (\<forall>x\<in>set a. x = 0)"
proof (induction a)
  case Nil
  show ?case by simp
next
  case (Cons x a)
  have "x * x + dot a a = 0 \<longleftrightarrow> x = 0 \<and> dot a a = 0"
    using dot_self_nonneg [of a] by (smt (verit) mult_eq_0_iff zero_le_square)
  with Cons show ?case by simp
qed

lemma dot_zero_left: "length a = length b \<Longrightarrow> \<forall>x\<in>set a. x = 0 \<Longrightarrow> dot a b = 0"
  by (induction a b rule: list_induct2) simp_all

lemma dot_diff:
  "length a = length b \<Longrightarrow>
   dot (map2 (\<lambda>x y. t * x - y) a b) (map2 (\<lambda>x y. t * x - y) a b)
     = t * t * dot a a - 2 * t * dot a b + dot b b"
  by (induction a b rule: list_induct2) (simp_all add: algebra_simps)

lemma cauchy_schwarz:
  assumes "length a = length b"
  shows "dot a b * dot a b \<le> dot a a * dot b b"
proof (cases "dot a a = 0")
  case True
  then have "dot a b = 0"
    using assms dot_zero_left dot_self_zero by blast
  with True show ?thesis by simp
next
  case False
  then have pos: "0 < dot a a"
    using dot_self_nonneg [of a] by simp
  define t where "t = dot a b / dot a a"
  have "0 \<le> t * t * dot a a - 2 * t * dot a b + dot b b"
    using dot_diff [OF assms, of t] dot_self_nonneg [of "map2 (\<lambda>x y. t * x - y) a b"] by simp
  also have "t * t * dot a a - 2 * t * dot a b + dot b b = dot b b - dot a b * dot a b / dot a a"
    using pos by (simp add: t_def field_simps)
  finally have "dot a b * dot a b / dot a a \<le> dot b b" by simp
  then show ?thesis
    using pos by (simp add: field_simps)
qed

lemma dot_scaled_right: "dot a (scaled t a) = t * dot a a"
  by (induction a) (simp_all add: scaled_def algebra_simps)

lemma dot_scaled_both: "dot (scaled t a) (scaled t a) = t * t * dot a a"
  by (induction a) (simp_all add: scaled_def algebra_simps)

lemma dot_nonneg: "length a = length b \<Longrightarrow> \<forall>x\<in>set a. 0 \<le> x \<Longrightarrow> \<forall>y\<in>set b. 0 \<le> y \<Longrightarrow> 0 \<le> dot a b"
  by (induction a b rule: list_induct2) simp_all

lemma searchLoop_result:
  "searchLoop rnd q f ss = Inr rs \<Longrightarrow> r \<in> set rs \<Longrightarrow>
   \<exists>s\<in>set ss. r_id r = m_id (memory s) \<and> searchKeeps f (memory s) \<and>
              cosineSimilarity rnd q (sm_embedding s) = Inr (relevance r)"
proof (induction ss arbitrary: rs)
  case Nil
  then show ?case by simp
next
  case (Cons s ss)
  show ?case
  proof (cases "searchKeeps f (memory s)")
    case False
    with Cons show ?thesis by auto
  next
    case True
    with Cons.prems(1) obtain rel rs' where
      c: "cosineSimilarity rnd q (sm_embedding s) = Inr rel" and
      t: "searchLoop rnd q f ss = Inr rs'" and
      rs: "rs = \<lparr>r_id = m_id (memory s), r_content = content (memory s),
                  relevance = rel, r_metadata = metadata (memory s)\<rparr> # rs'"
      by (auto split: sum.splits)
    show ?thesis
    proof (cases "r \<in> set rs'")
      case True
      with Cons.IH [OF t] show ?thesis by auto
    next
      case False
      with Cons.prems(2) rs have "r = \<lparr>r_id = m_id (memory s), r_content = content (memory s),
                  relevance = rel, r_metadata = metadata (memory s)\<rparr>" by simp
      with c \<open>searchKeeps f (memory s)\<close> show ?thesis by simp
    qed
  qed
qed

lemma mvs_search_result:
  assumes "mvs_search rnd q k f v = (Inr rs, v')" and "r \<in> set rs"
  shows "\<exists>s\<in>set (mapValues v). r_id r = m_id (memory s) \<and> searchKeeps f (memory s) \<and>
              cosineSimilarity rnd q (sm_embedding s) = Inr (relevance r)"
proof -
  from assms(1) obtain rs0 where l: "searchLoop rnd q f (mapValues v) = Inr rs0"
    and rs: "rs = take k (byRelevanceDesc rs0)"
    by (auto simp: mvs_search_def split: sum.splits)
  have "r \<in> set rs0"
    using assms(2) rs set_take_subset [of k "byRelevanceDesc rs0"]
    by (auto simp: byRelevanceDesc_def)
  with searchLoop_result [OF l] show ?thesis by blast
qed

subsection \<open>Cosine similarity in floating point\<close>

lemma accumulate_Nil [simp]: "accumulate rnd [] acc = acc"
  by (simp add: accumulate_def)

lemma accumulate_Cons [simp]:
  "accumulate rnd (t # ts) acc = accumulate rnd ts (rnd (acc + rnd t))"
  by (simp add: accumulate_def)

lemma cosineLoop_accumulate:
  "length a = length b \<Longrightarrow>
   cosineLoop rnd a b (d, p, q)
     = (accumulate rnd (map2 (*) a b) d, accumulate rnd (map (\<lambda>x. x * x) a) p,
        accumulate rnd (map (\<lambda>y. y * y) b) q)"
  by (induction a b arbitrary: d p q rule: list_induct2) simp_all

lemma rw_abs:
  assumes "roundsWithin u rnd"
  shows "\<bar>rnd x\<bar> \<le> (1 + u) * \<bar>x\<bar>"
proof -
  have "\<bar>rnd x - x\<bar> \<le> u * \<bar>x\<bar>"
    using assms by (simp add: roundsWithin_def)
  then show ?thesis
    by (simp add: algebra_simps)
qed

lemma rw_low:
  assumes "roundsWithin u rnd" and "0 \<le> x"
  shows "(1 - u) * x \<le> rnd x"
proof -
  have "\<bar>rnd x - x\<bar> \<le> u * \<bar>x\<bar>"
    using assms(1) by (simp add: roundsWithin_def)
  with assms(2) show ?thesis
    by (simp add: algebra_simps)
qed

lemma rw_up:
  assumes "roundsWithin u rnd" and "0 \<le> x"
  shows "rnd x \<le> (1 + u) * x"
  using rw_abs [OF assms(1), of x] assms(2) by simp

lemma rw_nonneg:
  assumes "roundsWithin u rnd" and "u < 1" and "0 \<le> x"
  shows "0 \<le> rnd x"
proof -
  have "0 \<le> (1 - u) * x"
    using assms(2,3) by simp
  with rw_low [OF assms(1,3)] show ?thesis by linarith
qed

lemma rw_pos:
  assumes "roundsWithin u rnd" and "u < 1" and "0 < x"
  shows "0 < rnd x"
proof -
  have "0 < (1 - u) * x"
    using assms(2,3) by simp
  with rw_low [OF assms(1), of x] assms(3) show ?thesis by linarith
qed

lemma rw_zero:
  assumes "roundsWithin u rnd"
  shows "rnd 0 = 0"
  using assms [unfolded roundsWithin_def, rule_format, of 0] by simp

lemma accumulate_abs:
  assumes "roundsWithin u rnd" and "0 \<le> u"
  shows "\<bar>accumulate rnd ts acc\<bar> \<le> (1 + u) ^ (2 * length ts) * (\<bar>acc\<bar> + sum_list (map abs ts))"
proof (induction ts arbitrary: acc)
  case Nil
  show ?case by simp
next
  case (Cons t ts)
  let ?A = "1 + u"
  let ?S = "sum_list (map abs ts)"
  have A1: "1 \<le> ?A" using assms(2) by simp
  have S0: "0 \<le> ?S" by (rule sum_list_nonneg) auto
  have p0: "0 \<le> ?A ^ (2 * length ts)" using assms(2) by simp
  have A2: "1 \<le> ?A * ?A"
    using A1 by (metis mult_mono' mult_1 zero_le_one)
  have "\<bar>rnd (acc + rnd t)\<bar> \<le> ?A * \<bar>acc + rnd t\<bar>"
    by (rule rw_abs [OF assms(1)])
  also have "\<dots> \<le> ?A * (\<bar>acc\<bar> + \<bar>rnd t\<bar>)"
    using A1 by (intro mult_left_mono) simp_all
  also have "\<dots> \<le> ?A * (\<bar>acc\<bar> + ?A * \<bar>t\<bar>)"
    using A1 rw_abs [OF assms(1), of t] by (intro mult_left_mono) simp_all
  also have "\<dots> \<le> ?A * (?A * \<bar>acc\<bar> + ?A * \<bar>t\<bar>)"
  proof -
    have "\<bar>acc\<bar> \<le> ?A * \<bar>acc\<bar>"
      using A1 by (simp add: mult_le_cancel_right1)
    then show ?thesis
      using A1 by (intro mult_left_mono) simp_all
  qed
  finally have step: "\<bar>rnd (acc + rnd t)\<bar> \<le> ?A * ?A * (\<bar>acc\<bar> + \<bar>t\<bar>)"
    by (simp add: algebra_simps)
  have "\<bar>accumulate rnd (t # ts) acc\<bar>
          \<le> ?A ^ (2 * length ts) * (\<bar>rnd (acc + rnd t)\<bar> + ?S)"
    using Cons.IH [of "rnd (acc + rnd t)"] by simp
  also have "\<dots> \<le> ?A ^ (2 * length ts) * (?A * ?A * (\<bar>acc\<bar> + \<bar>t\<bar>) + ?A * ?A * ?S)"
  proof -
    have "?S \<le> ?A * ?A * ?S"
      using A2 S0 by (simp add: mult_le_cancel_right1)
    with step show ?thesis
      using p0 by (intro mult_left_mono) simp_all
  qed
  also have "\<dots> = ?A ^ (2 * length (t # ts)) * (\<bar>acc\<bar> + sum_list (map abs (t # ts)))"
    by (simp add: algebra_simps power2_eq_square)
  finally show ?case .
qed

lemma accumulate_low:
  assumes "roundsWithin u rnd" and "0 \<le> u" and "u < 1"
  shows "0 \<le> acc \<Longrightarrow> \<forall>t\<in>set ts. 0 \<le> t \<Longrightarrow>
         (1 - u) ^ (2 * length ts) * (acc + sum_list ts) \<le> accumulate rnd ts acc"
proof (induction ts arbitrary: acc)
  case Nil
  show ?case by simp
next
  case (Cons t ts)
  let ?B = "1 - u"
  let ?S = "sum_list ts"
  have B0: "0 \<le> ?B" and B1: "?B \<le> 1" using assms(2,3) by simp_all
  have t0: "0 \<le> t" and ts0: "\<forall>t\<in>set ts. 0 \<le> t" using Cons.prems(2) by simp_all
  have S0: "0 \<le> ?S" using ts0 by (simp add: sum_list_nonneg)
  have p0: "0 \<le> ?B ^ (2 * length ts)" using B0 by simp
  have BB1: "?B * ?B \<le> 1"
    using B0 B1 by (simp add: mult_le_one)
  have rt: "?B * t \<le> rnd t" and rt0: "0 \<le> rnd t"
    using rw_low [OF assms(1) t0] rw_nonneg [OF assms(1,3) t0] by simp_all
  have s0: "0 \<le> acc + rnd t" using Cons.prems(1) rt0 by simp
  have new0: "0 \<le> rnd (acc + rnd t)"
    by (rule rw_nonneg [OF assms(1,3) s0])
  have "?B * ?B * (acc + t) = ?B * (?B * acc + ?B * t)"
    by (simp add: algebra_simps)
  also have "\<dots> \<le> ?B * (acc + rnd t)"
  proof -
    have "?B * acc \<le> acc"
      using B1 Cons.prems(1) by (simp add: mult_le_cancel_right2)
    with rt show ?thesis
      using B0 by (intro mult_left_mono) simp_all
  qed
  also have "\<dots> \<le> rnd (acc + rnd t)"
    by (rule rw_low [OF assms(1) s0])
  finally have step: "?B * ?B * (acc + t) \<le> rnd (acc + rnd t)" .
  have "?B ^ (2 * length (t # ts)) * (acc + sum_list (t # ts))
          = ?B ^ (2 * length ts) * (?B * ?B * (acc + t) + ?B * ?B * ?S)"
    by (simp add: algebra_simps power2_eq_square)
  also have "\<dots> \<le> ?B ^ (2 * length ts) * (rnd (acc + rnd t) + ?S)"
  proof -
    have "?B * ?B * ?S \<le> ?S"
      using BB1 S0 by (simp add: mult_le_cancel_right2)
    with step show ?thesis
      using p0 by (intro mult_left_mono) simp_all
  qed
  also have "\<dots> \<le> accumulate rnd (t # ts) acc"
    using Cons.IH [OF new0 ts0] by simp
  finally show ?case .
qed

lemma accumulate_nonneg:
  assumes "keepsSign rnd"
  shows "0 \<le> acc \<Longrightarrow> \<forall>t\<in>set ts. 0 \<le> t \<Longrightarrow> 0 \<le> accumulate rnd ts acc"
proof (induction ts arbitrary: acc)
  case Nil
  then show ?case by simp
next
  case (Cons t ts)
  have "0 \<le> rnd t" using assms Cons.prems(2) by (simp add: keepsSign_def)
  with Cons.prems(1) have "0 \<le> rnd (acc + rnd t)"
    using assms by (simp add: keepsSign_def)
  with Cons.IH [of "rnd (acc + rnd t)"] Cons.prems(2) show ?case by simp
qed


lemma sum_abs_products:
  "length a = length b \<Longrightarrow> sum_list (map abs (map2 (*) a b)) = dot (map abs a) (map abs b)"
  by (induction a b rule: list_induct2) (simp_all add: abs_mult)

lemma sum_products: "sum_list (map2 (*) a b) = dot a b"
  by (simp add: dot_def)

lemma sum_squares: "sum_list (map (\<lambda>x. x * x) a) = dot a a"
  by (induction a) simp_all

lemma sum_abs_squares: "sum_list (map abs (map (\<lambda>x. x * x) a)) = dot a a"
  by (induction a) simp_all

lemma dot_abs_self: "dot (map abs a) (map abs a) = dot a a"
  by (induction a) simp_all

lemma dot_abs_nonneg: "length a = length b \<Longrightarrow> 0 \<le> dot (map abs a) (map abs b)"
  by (induction a b rule: list_induct2) simp_all

lemma dot_abs_le:
  assumes "length a = length b"
  shows "dot (map abs a) (map abs b) \<le> sqrt (dot a a) * sqrt (dot b b)"
proof -
  let ?d = "dot (map abs a) (map abs b)"
  have "?d * ?d \<le> dot a a * dot b b"
    using cauchy_schwarz [of "map abs a" "map abs b"] assms by (simp add: dot_abs_self)
  then have "sqrt (?d * ?d) \<le> sqrt (dot a a * dot b b)"
    by (simp only: real_sqrt_le_iff)
  then show ?thesis
    using dot_abs_nonneg [OF assms] by (simp add: real_sqrt_mult)
qed

lemma sqrt_even_power: "0 \<le> x \<Longrightarrow> sqrt (x ^ (2 * n)) = x ^ n"
  by (simp add: power_mult real_sqrt_power)

lemma cosineSimilarity_accumulate:
  "length a = length b \<Longrightarrow>
   cosineSimilarity rnd a b
     = (if rnd (sqrt (accumulate rnd (map (\<lambda>x. x * x) a) 0)) = 0
           \<or> rnd (sqrt (accumulate rnd (map (\<lambda>y. y * y) b) 0)) = 0 then Inr 0
        else Inr (rnd (accumulate rnd (map2 (*) a b) 0
                       / rnd (rnd (sqrt (accumulate rnd (map (\<lambda>x. x * x) a) 0))
                              * rnd (sqrt (accumulate rnd (map (\<lambda>y. y * y) b) 0))))))"
  by (simp add: cosineSimilarity_def cosineLoop_accumulate Let_def)

lemma cosineSimilarity_lengths: "cosineSimilarity rnd a b = Inr c \<Longrightarrow> length a = length b"
  by (simp add: cosineSimilarity_def split: if_splits)

lemma magnitude_low:
  assumes "roundsWithin u rnd" and "0 \<le> u" and "u < 1"
  shows "(1 - u) ^ (length a + 1) * sqrt (dot a a)
           \<le> rnd (sqrt (accumulate rnd (map (\<lambda>x. x * x) a) 0))"
proof -
  let ?B = "1 - u"
  let ?P = "accumulate rnd (map (\<lambda>x. x * x) a) 0"
  have B0: "0 \<le> ?B" using assms(3) by simp
  have low: "?B ^ (2 * length a) * dot a a \<le> ?P"
    using accumulate_low [OF assms, of 0 "map (\<lambda>x. x * x) a"] by (simp add: sum_squares)
  have "sqrt (?B ^ (2 * length a) * dot a a) \<le> sqrt ?P"
    using low by (simp only: real_sqrt_le_iff)
  then have s: "?B ^ length a * sqrt (dot a a) \<le> sqrt ?P"
    using B0 by (simp add: real_sqrt_mult sqrt_even_power)
  have "0 \<le> ?B ^ length a * sqrt (dot a a)"
    using B0 dot_self_nonneg [of a] by simp
  with s have P0: "0 \<le> sqrt ?P" by linarith
  have "?B ^ (length a + 1) * sqrt (dot a a) = ?B * (?B ^ length a * sqrt (dot a a))"
    by simp
  also have "\<dots> \<le> ?B * sqrt ?P"
    using s B0 by (rule mult_left_mono)
  also have "\<dots> \<le> rnd (sqrt ?P)"
    by (rule rw_low [OF assms(1) P0])
  finally show ?thesis .
qed

lemma magnitude_up:
  assumes "roundsWithin u rnd" and "0 \<le> u" and "u < 1"
  shows "rnd (sqrt (accumulate rnd (map (\<lambda>x. x * x) a) 0))
           \<le> (1 + u) ^ (length a + 1) * sqrt (dot a a)"
proof -
  let ?A = "1 + u"
  let ?P = "accumulate rnd (map (\<lambda>x. x * x) a) 0"
  have A0: "0 \<le> ?A" using assms(2) by simp
  have "\<bar>?P\<bar> \<le> ?A ^ (2 * length a) * dot a a"
    using accumulate_abs [OF assms(1,2), of "map (\<lambda>x. x * x) a" 0]
    unfolding sum_abs_squares by simp
  then have "?P \<le> ?A ^ (2 * length a) * dot a a" by linarith
  then have "sqrt ?P \<le> sqrt (?A ^ (2 * length a) * dot a a)"
    by (simp only: real_sqrt_le_iff)
  then have s: "sqrt ?P \<le> ?A ^ length a * sqrt (dot a a)"
    using A0 by (simp add: real_sqrt_mult sqrt_even_power)
  have "(1 - u) ^ (2 * length a) * dot a a \<le> ?P"
    using accumulate_low [OF assms, of 0 "map (\<lambda>x. x * x) a"] by (simp add: sum_squares)
  moreover have "0 \<le> (1 - u) ^ (2 * length a) * dot a a"
    using assms(3) dot_self_nonneg [of a] by simp
  ultimately have "0 \<le> ?P" by linarith
  then have P0: "0 \<le> sqrt ?P" by simp
  have "rnd (sqrt ?P) \<le> ?A * sqrt ?P"
    by (rule rw_up [OF assms(1) P0])
  also have "\<dots> \<le> ?A * (?A ^ length a * sqrt (dot a a))"
    using s A0 by (rule mult_left_mono)
  finally show ?thesis by simp
qed

lemma magnitude_nonneg:
  assumes "roundsWithin u rnd" and "0 \<le> u" and "u < 1"
  shows "0 \<le> rnd (sqrt (accumulate rnd (map (\<lambda>x. x * x) a) 0))"
proof -
  have "0 \<le> (1 - u) ^ (length a + 1) * sqrt (dot a a)"
    using assms(3) dot_self_nonneg [of a] by simp
  with magnitude_low [OF assms, of a] show ?thesis by linarith
qed


lemma power_split: "(x::real) ^ (2 * n + 3) = x * (x ^ (n + 1) * x ^ (n + 1))"
proof -
  have "2 * n + 3 = 1 + ((n + 1) + (n + 1))" by simp
  then have "x ^ (2 * n + 3) = x ^ (1 + ((n + 1) + (n + 1)))" by (rule arg_cong)
  then show ?thesis by (simp only: power_add power_one_right)
qed

lemma products_nonneg:
  "length a = length b \<Longrightarrow> \<forall>x\<in>set a. (0::real) \<le> x \<Longrightarrow> \<forall>y\<in>set b. 0 \<le> y \<Longrightarrow>
   \<forall>p\<in>set (map2 (*) a b). 0 \<le> p"
  by (induction a b rule: list_induct2) simp_all

lemma products_scaled_nonneg: "0 \<le> t \<Longrightarrow> \<forall>p\<in>set (map2 (*) a (scaled t a)). 0 \<le> p"
proof (induction a)
  case Nil
  show ?case by (simp add: scaled_def)
next
  case (Cons x a)
  have "0 \<le> t * (x * x)" using Cons.prems by simp
  then have "0 \<le> x * (t * x)" by (simp add: mult.left_commute)
  with Cons show ?case by (simp add: scaled_def)
qed

lemma squares_nonneg: "\<forall>p\<in>set (map (\<lambda>x. x * x) a). (0::real) \<le> p"
  by simp

lemma cosine_abs_bound:
  assumes rw: "roundsWithin u rnd" and u0: "0 \<le> u" and u1: "u < 1"
    and c: "cosineSimilarity rnd a b = Inr c"
  shows "\<bar>c\<bar> \<le> (1 + u) ^ (2 * length a + 1) / (1 - u) ^ (2 * length a + 3)"
proof -
  let ?A = "1 + u"
  let ?B = "1 - u"
  let ?n = "length a"
  let ?mA = "rnd (sqrt (accumulate rnd (map (\<lambda>x. x * x) a) 0))"
  let ?mB = "rnd (sqrt (accumulate rnd (map (\<lambda>y. y * y) b) 0))"
  let ?D = "accumulate rnd (map2 (*) a b) 0"
  let ?Na = "sqrt (dot a a)"
  let ?Nb = "sqrt (dot b b)"
  have len: "length a = length b" by (rule cosineSimilarity_lengths [OF c])
  have A0: "0 < ?A" and B0: "0 < ?B" using u0 u1 by simp_all
  have bound0: "0 \<le> ?A ^ (2 * ?n + 1) / ?B ^ (2 * ?n + 3)"
    using A0 B0 by simp
  show ?thesis
  proof (cases "?mA = 0 \<or> ?mB = 0")
    case True
    then have "c = 0" using c by (simp add: cosineSimilarity_accumulate [OF len])
    with bound0 show ?thesis by simp
  next
    case False
    then have cv: "c = rnd (?D / rnd (?mA * ?mB))"
      using c by (simp add: cosineSimilarity_accumulate [OF len])
    have mA0: "0 < ?mA" and mB0: "0 < ?mB"
      using False magnitude_nonneg [OF rw u0 u1, of a] magnitude_nonneg [OF rw u0 u1, of b]
      by simp_all
    have Na: "0 < ?Na"
    proof -
      have "?mA \<le> ?A ^ (?n + 1) * ?Na" by (rule magnitude_up [OF rw u0 u1])
      with mA0 have "0 < ?A ^ (?n + 1) * ?Na" by linarith
      then show ?thesis by (rule zero_less_mult_pos) (rule zero_less_power [OF A0])
    qed
    have Nb: "0 < ?Nb"
    proof -
      have "?mB \<le> ?A ^ (length b + 1) * ?Nb" by (rule magnitude_up [OF rw u0 u1])
      with mB0 have "0 < ?A ^ (length b + 1) * ?Nb" by linarith
      then show ?thesis by (rule zero_less_mult_pos) (rule zero_less_power [OF A0])
    qed
    have N: "0 < ?Na * ?Nb" using Na Nb by simp
    then have Nne: "?Na * ?Nb \<noteq> 0" by linarith
    have lowA: "?B ^ (?n + 1) * ?Na \<le> ?mA" by (rule magnitude_low [OF rw u0 u1])
    have lowB: "?B ^ (?n + 1) * ?Nb \<le> ?mB"
      using magnitude_low [OF rw u0 u1, of b] len by simp
    have lb0: "0 \<le> ?B ^ (?n + 1) * ?Nb" using B0 Nb by simp
    have m: "(?B ^ (?n + 1) * ?Na) * (?B ^ (?n + 1) * ?Nb) \<le> ?mA * ?mB"
      using lowA lowB mA0 lb0 by (intro mult_mono) simp_all
    have mm0: "0 \<le> ?mA * ?mB" using mA0 mB0 by simp
    have "?B ^ (2 * ?n + 3) * (?Na * ?Nb)
            = ?B * ((?B ^ (?n + 1) * ?Na) * (?B ^ (?n + 1) * ?Nb))"
      by (simp only: power_split) (simp add: algebra_simps)
    also have "\<dots> \<le> ?B * (?mA * ?mB)"
      using m B0 by (intro mult_left_mono) simp_all
    also have "\<dots> \<le> rnd (?mA * ?mB)"
      by (rule rw_low [OF rw mm0])
    finally have prod: "?B ^ (2 * ?n + 3) * (?Na * ?Nb) \<le> rnd (?mA * ?mB)" .
    have w0: "0 < ?B ^ (2 * ?n + 3) * (?Na * ?Nb)" using B0 N by simp
    with prod have prod0: "0 < rnd (?mA * ?mB)" by linarith
    have "\<bar>?D\<bar> \<le> ?A ^ (2 * ?n) * dot (map abs a) (map abs b)"
      using accumulate_abs [OF rw u0, of "map2 (*) a b" 0] len
      unfolding sum_abs_products [OF len] by simp
    also have "\<dots> \<le> ?A ^ (2 * ?n) * (?Na * ?Nb)"
      using dot_abs_le [OF len] A0 by (intro mult_left_mono) simp_all
    finally have D: "\<bar>?D\<bar> \<le> ?A ^ (2 * ?n) * (?Na * ?Nb)" .
    have y0: "0 \<le> ?A ^ (2 * ?n) * (?Na * ?Nb)" using A0 N by simp
    have "\<bar>?D / rnd (?mA * ?mB)\<bar> = \<bar>?D\<bar> / rnd (?mA * ?mB)"
      using prod0 by simp
    also have "\<dots> \<le> (?A ^ (2 * ?n) * (?Na * ?Nb)) / (?B ^ (2 * ?n + 3) * (?Na * ?Nb))"
      using y0 D w0 prod by (rule frac_le)
    also have "\<dots> = ?A ^ (2 * ?n) / ?B ^ (2 * ?n + 3)"
      by (rule mult_divide_mult_cancel_right [OF Nne])
    finally have q: "\<bar>?D / rnd (?mA * ?mB)\<bar> \<le> ?A ^ (2 * ?n) / ?B ^ (2 * ?n + 3)" .
    have "\<bar>c\<bar> \<le> ?A * \<bar>?D / rnd (?mA * ?mB)\<bar>"
      unfolding cv by (rule rw_abs [OF rw])
    also have "\<dots> \<le> ?A * (?A ^ (2 * ?n) / ?B ^ (2 * ?n + 3))"
      using q A0 by (intro mult_left_mono) simp_all
    finally show ?thesis by simp
  qed
qed

lemma cosine_parallel_bound:
  assumes rw: "roundsWithin u rnd" and u0: "0 \<le> u" and u1: "u < 1"
    and nz: "\<exists>x\<in>set a. x \<noteq> 0" and t: "0 < t"
    and c: "cosineSimilarity rnd a (scaled t a) = Inr c"
  shows "(1 - u) ^ (2 * length a + 1) / (1 + u) ^ (2 * length a + 3) \<le> c"
proof -
  let ?A = "1 + u"
  let ?B = "1 - u"
  let ?n = "length a"
  let ?b = "scaled t a"
  let ?mA = "rnd (sqrt (accumulate rnd (map (\<lambda>x. x * x) a) 0))"
  let ?mB = "rnd (sqrt (accumulate rnd (map (\<lambda>y. y * y) ?b) 0))"
  let ?D = "accumulate rnd (map2 (*) a ?b) 0"
  let ?N = "sqrt (dot a a)"
  let ?M = "t * dot a a"
  have len: "length a = length ?b" by (simp add: scaled_def)
  have A0: "0 < ?A" and B0: "0 < ?B" using u0 u1 by simp_all
  have "dot a a \<noteq> 0" using nz by (simp add: dot_self_zero)
  with dot_self_nonneg [of a] have daa: "0 < dot a a" by linarith
  then have N: "0 < ?N" by simp
  have NN: "?N * ?N = dot a a" using daa by simp
  have Nb: "sqrt (dot ?b ?b) = t * ?N"
    using t by (simp add: dot_scaled_both real_sqrt_mult)
  have M: "0 < ?M" using t daa by simp
  then have Mne: "?M \<noteq> 0" by linarith
  have lowA: "?B ^ (?n + 1) * ?N \<le> ?mA" by (rule magnitude_low [OF rw u0 u1])
  have lowB: "?B ^ (?n + 1) * (t * ?N) \<le> ?mB"
    using magnitude_low [OF rw u0 u1, of ?b] len Nb by simp
  have upA: "?mA \<le> ?A ^ (?n + 1) * ?N" by (rule magnitude_up [OF rw u0 u1])
  have upB: "?mB \<le> ?A ^ (?n + 1) * (t * ?N)"
    using magnitude_up [OF rw u0 u1, of ?b] len Nb by simp
  have "0 < ?B ^ (?n + 1) * ?N" using B0 N by simp
  with lowA have mA0: "0 < ?mA" by linarith
  have "0 < ?B ^ (?n + 1) * (t * ?N)" using B0 N t by simp
  with lowB have mB0: "0 < ?mB" by linarith
  have cv: "c = rnd (?D / rnd (?mA * ?mB))"
    using c mA0 mB0 by (simp add: cosineSimilarity_accumulate [OF len])
  have mm0: "0 < ?mA * ?mB" using mA0 mB0 by simp
  have prod0: "0 < rnd (?mA * ?mB)" by (rule rw_pos [OF rw u1 mm0])
  have ua0: "0 \<le> ?A ^ (?n + 1) * ?N" using A0 N by simp
  have m: "?mA * ?mB \<le> (?A ^ (?n + 1) * ?N) * (?A ^ (?n + 1) * (t * ?N))"
    using upA upB ua0 mB0 by (intro mult_mono) simp_all
  have "rnd (?mA * ?mB) \<le> ?A * (?mA * ?mB)"
    using mm0 by (intro rw_up [OF rw]) simp
  also have "\<dots> \<le> ?A * ((?A ^ (?n + 1) * ?N) * (?A ^ (?n + 1) * (t * ?N)))"
    using m A0 by (intro mult_left_mono) simp_all
  also have "\<dots> = ?A * (?A ^ (?n + 1) * ?A ^ (?n + 1)) * (t * (?N * ?N))"
    by (simp only: mult_ac)
  also have "\<dots> = ?A ^ (2 * ?n + 3) * ?M"
    by (simp only: power_split NN)
  finally have prod: "rnd (?mA * ?mB) \<le> ?A ^ (2 * ?n + 3) * ?M" .
  have "?B ^ (2 * ?n) * ?M \<le> ?D"
    using accumulate_low [OF rw u0 u1, of 0 "map2 (*) a ?b"] products_scaled_nonneg [of t a] t len
    unfolding sum_products dot_scaled_right by simp
  moreover have x0: "0 \<le> ?B ^ (2 * ?n) * ?M" using B0 M by simp
  ultimately have D: "?B ^ (2 * ?n) * ?M \<le> ?D" and D0: "0 \<le> ?D" by simp_all
  have "?B ^ (2 * ?n) / ?A ^ (2 * ?n + 3) = (?B ^ (2 * ?n) * ?M) / (?A ^ (2 * ?n + 3) * ?M)"
    by (rule mult_divide_mult_cancel_right [OF Mne, symmetric])
  also have "\<dots> \<le> ?D / rnd (?mA * ?mB)"
    using D0 D prod0 prod by (rule frac_le)
  finally have q: "?B ^ (2 * ?n) / ?A ^ (2 * ?n + 3) \<le> ?D / rnd (?mA * ?mB)" .
  have "0 \<le> ?B ^ (2 * ?n) / ?A ^ (2 * ?n + 3)" using A0 B0 by simp
  with q have q0: "0 \<le> ?D / rnd (?mA * ?mB)" by linarith
  have "?B ^ (2 * ?n + 1) / ?A ^ (2 * ?n + 3) = ?B * (?B ^ (2 * ?n) / ?A ^ (2 * ?n + 3))"
    by simp
  also have "\<dots> \<le> ?B * (?D / rnd (?mA * ?mB))"
    using q B0 by (intro mult_left_mono) simp_all
  also have "\<dots> \<le> c"
    unfolding cv by (rule rw_low [OF rw q0])
  finally show ?thesis .
qed

lemma cosine_nonneg:
  assumes ks: "keepsSign rnd" and a: "\<forall>x\<in>set a. 0 \<le> x" and b: "\<forall>y\<in>set b. 0 \<le> y"
    and c: "cosineSimilarity rnd a b = Inr c"
  shows "0 \<le> c"
proof -
  let ?mA = "rnd (sqrt (accumulate rnd (map (\<lambda>x. x * x) a) 0))"
  let ?mB = "rnd (sqrt (accumulate rnd (map (\<lambda>y. y * y) b) 0))"
  let ?D = "accumulate rnd (map2 (*) a b) 0"
  have len: "length a = length b" by (rule cosineSimilarity_lengths [OF c])
  have r: "\<And>x. 0 \<le> x \<Longrightarrow> 0 \<le> rnd x" using ks by (simp add: keepsSign_def)
  have D0: "0 \<le> ?D"
    by (rule accumulate_nonneg [OF ks order_refl products_nonneg [OF len a b]])
  have "0 \<le> accumulate rnd (map (\<lambda>x. x * x) a) 0"
    by (rule accumulate_nonneg [OF ks order_refl squares_nonneg])
  then have mA0: "0 \<le> ?mA" by (intro r) simp
  have "0 \<le> accumulate rnd (map (\<lambda>y. y * y) b) 0"
    by (rule accumulate_nonneg [OF ks order_refl squares_nonneg])
  then have mB0: "0 \<le> ?mB" by (intro r) simp
  have "0 \<le> rnd (?mA * ?mB)" using mA0 mB0 by (intro r) simp
  with D0 have "0 \<le> rnd (?D / rnd (?mA * ?mB))" by (intro r) simp
  then show ?thesis
    using c by (simp add: cosineSimilarity_accumulate [OF len] split: if_splits)
qed

lemma cosine_opposite:
  assumes "rnd 0 = 0" and "rnd 1 = 1" and "rnd (- 1) = - 1"
  shows "cosineSimilarity rnd [1] [- 1] = Inr (- 1)"
  using assms by (simp add: cosineSimilarity_def)


lemma noRounding_roundsWithin: "roundsWithin 0 noRounding"
  by (simp add: roundsWithin_def noRounding_def)

lemma noRounding_keepsSign: "keepsSign noRounding"
  by (simp add: keepsSign_def noRounding_def)

lemma sqrt_two_bounds:
  "12738103345051546 / 9007199254740993 \<le> sqrt 2" "sqrt 2 \<le> 12738103345051546 / 9007199254740991"
proof -
  have "(12738103345051546 / 9007199254740993)\<^sup>2 \<le> (2::real)" by (simp add: power2_eq_square)
  then show "12738103345051546 / 9007199254740993 \<le> sqrt 2" by (rule real_le_rsqrt)
  have "(2::real) \<le> (12738103345051546 / 9007199254740991)\<^sup>2" by (simp add: power2_eq_square)
  then show "sqrt 2 \<le> 12738103345051546 / 9007199254740991" by (intro real_le_lsqrt) simp_all
qed

lemma roundingOfSelfSimilarity_roundsWithin:
  "roundsWithin (1 / 9007199254740992) roundingOfSelfSimilarity"
  unfolding roundsWithin_def
proof
  fix x :: real
  show "\<bar>roundingOfSelfSimilarity x - x\<bar> \<le> 1 / 9007199254740992 * \<bar>x\<bar>"
  proof (cases "x * x = 2 \<and> 0 < x")
    case True
    then have "sqrt 2 = x"
      by (intro real_sqrt_unique) (simp_all add: power2_eq_square)
    with sqrt_two_bounds have "12738103345051546 / 9007199254740993 \<le> x" "x \<le> 12738103345051546 / 9007199254740991" by simp_all
    moreover have "roundingOfSelfSimilarity x = 6369051672525773 / 4503599627370496"
      using True by (simp add: roundingOfSelfSimilarity_def)
    ultimately show ?thesis using True by (simp add: abs_if) 
  next
    case False
    show ?thesis
    proof (cases "x = 6369051672525773 / 4503599627370496 * (6369051672525773 / 4503599627370496)")
      case True
      show ?thesis
        unfolding True by (simp add: roundingOfSelfSimilarity_def)
    next
      case square: False
      show ?thesis
      proof (cases "x = 2 / (4503599627370497 / 2251799813685248)")
        case True
        show ?thesis
          unfolding True by (simp add: roundingOfSelfSimilarity_def)
      next
        case False
        with square \<open>\<not> (x * x = 2 \<and> 0 < x)\<close> have "roundingOfSelfSimilarity x = x"
          unfolding roundingOfSelfSimilarity_def by (simp only: if_False)
        then show ?thesis by simp
      qed
    qed
  qed
qed

lemma roundingOfSelfSimilarity_keepsSign: "keepsSign roundingOfSelfSimilarity"
  by (simp add: keepsSign_def roundingOfSelfSimilarity_def)

lemma cosine_self_rounded:
  "cosineSimilarity roundingOfSelfSimilarity [1, 1] [1, 1]
     = Inr (4503599627370495 / 4503599627370496)"
  by (simp add: cosineSimilarity_def roundingOfSelfSimilarity_def)


subsection \<open>Relevance of the in-process search\<close>

text \<open>
  C10, as the code has it. Whenever the in-process search returns, every result belongs to a
  stored record, and its relevance is what \<open>cosineSimilarity\<close> computes in floating point
  from the query and the stored embedding. That value is not below 0 when neither vector has a
  negative component and the rounding keeps the sign. When the rounding has a relative error
  of at most \<open>u < 1\<close> and the query has \<open>n\<close> components, the value lies between
  \<open>-b\<close> and \<open>b\<close> for \<open>b = (1 + u)^(2n + 1) / (1 - u)^(2n + 3)\<close>, and it is at least
  \<open>(1 - u)^(2n + 1) / (1 + u)^(2n + 3)\<close> when the query is not the zero vector and the
  stored embedding is a positive multiple of it. For \<open>u = 0\<close> these are the bounds -1 and 1
  and the value 1 of exact arithmetic; in doubles the relevance of a positive multiple of the
  query is 1 up to rounding, above or below.
\<close>

theorem search_relevance:
  assumes "mvs_search rnd q k f v = (Inr rs, v')" and "r \<in> set rs"
  shows "\<exists>s\<in>set (mapValues v).
           r_id r = m_id (memory s) \<and>
           cosineSimilarity rnd q (sm_embedding s) = Inr (relevance r) \<and>
           (keepsSign rnd \<and> (\<forall>x\<in>set q. 0 \<le> x) \<and> (\<forall>y\<in>set (sm_embedding s). 0 \<le> y)
              \<longrightarrow> 0 \<le> relevance r) \<and>
           (0 \<le> u \<and> u < 1 \<and> roundsWithin u rnd \<longrightarrow>
              \<bar>relevance r\<bar> \<le> (1 + u) ^ (2 * length q + 1) / (1 - u) ^ (2 * length q + 3) \<and>
              ((\<exists>x\<in>set q. x \<noteq> 0) \<and> (\<exists>t>0. sm_embedding s = scaled t q) \<longrightarrow>
                 (1 - u) ^ (2 * length q + 1) / (1 + u) ^ (2 * length q + 3) \<le> relevance r))"
proof -
  from mvs_search_result [OF assms] obtain s where
    s: "s \<in> set (mapValues v)" "r_id r = m_id (memory s)"
       "cosineSimilarity rnd q (sm_embedding s) = Inr (relevance r)"
    by blast
  have sign: "keepsSign rnd \<and> (\<forall>x\<in>set q. 0 \<le> x) \<and> (\<forall>y\<in>set (sm_embedding s). 0 \<le> y)
                \<longrightarrow> 0 \<le> relevance r"
    using cosine_nonneg [OF _ _ _ s(3)] by blast
  have bound: "0 \<le> u \<and> u < 1 \<and> roundsWithin u rnd \<longrightarrow>
                 \<bar>relevance r\<bar> \<le> (1 + u) ^ (2 * length q + 1) / (1 - u) ^ (2 * length q + 3)"
    using cosine_abs_bound [OF _ _ _ s(3)] by blast
  have par: "0 \<le> u \<and> u < 1 \<and> roundsWithin u rnd \<longrightarrow>
               (\<exists>x\<in>set q. x \<noteq> 0) \<and> (\<exists>t>0. sm_embedding s = scaled t q) \<longrightarrow>
               (1 - u) ^ (2 * length q + 1) / (1 + u) ^ (2 * length q + 3) \<le> relevance r"
  proof (intro impI, elim conjE exE)
    fix t
    assume h: "0 \<le> u" "u < 1" "roundsWithin u rnd" "\<exists>x\<in>set q. x \<noteq> 0"
       "0 < t" "sm_embedding s = scaled t q"
    from s(3) h(6) have "cosineSimilarity rnd q (scaled t q) = Inr (relevance r)" by simp
    from cosine_parallel_bound [OF h(3) h(1) h(2) h(4) h(5) this] show
      "(1 - u) ^ (2 * length q + 1) / (1 + u) ^ (2 * length q + 3) \<le> relevance r" .
  qed
  show ?thesis
    using s(1)
  proof (rule bexI [rotated])
    show "r_id r = m_id (memory s) \<and>
           cosineSimilarity rnd q (sm_embedding s) = Inr (relevance r) \<and>
           (keepsSign rnd \<and> (\<forall>x\<in>set q. 0 \<le> x) \<and> (\<forall>y\<in>set (sm_embedding s). 0 \<le> y)
              \<longrightarrow> 0 \<le> relevance r) \<and>
           (0 \<le> u \<and> u < 1 \<and> roundsWithin u rnd \<longrightarrow>
              \<bar>relevance r\<bar> \<le> (1 + u) ^ (2 * length q + 1) / (1 - u) ^ (2 * length q + 3) \<and>
              ((\<exists>x\<in>set q. x \<noteq> 0) \<and> (\<exists>t>0. sm_embedding s = scaled t q) \<longrightarrow>
                 (1 - u) ^ (2 * length q + 1) / (1 + u) ^ (2 * length q + 3) \<le> relevance r))"
      using s(2,3) sign bound par by (intro conjI impI) simp_all
  qed
qed

text \<open>
  In doubles, the search for \<open>[1, 1]\<close> in a store that holds the embedding \<open>[1, 1]\<close>
  returns the relevance \<open>1 - 2^-52\<close> (printed 0.9999999999999998): within the bounds for
  \<open>u = 2^-53\<close> and two components, and below 1.
\<close>

theorem search_relevance_witness:
  "mvs_search roundingOfSelfSimilarity [1, 1] 10 noFilter onesStore = (Inr [onesResult], onesStore)
   \<and> keepsSign roundingOfSelfSimilarity
   \<and> roundsWithin (1 / 9007199254740992) roundingOfSelfSimilarity
   \<and> map sm_embedding (mapValues onesStore) = [scaled 1 [1, 1]]
   \<and> 0 \<le> relevance onesResult
   \<and> \<bar>relevance onesResult\<bar>
        \<le> (1 + 1 / 9007199254740992) ^ (2 * length [1::real, 1] + 1)
           / (1 - 1 / 9007199254740992) ^ (2 * length [1::real, 1] + 3)
   \<and> (1 - 1 / 9007199254740992) ^ (2 * length [1::real, 1] + 1)
         / (1 + 1 / 9007199254740992) ^ (2 * length [1::real, 1] + 3)
        \<le> relevance onesResult
   \<and> relevance onesResult < 1"
proof -
  have h: "mvs_search roundingOfSelfSimilarity [1, 1] 10 noFilter onesStore
             = (Inr [onesResult], onesStore)"
    by (simp add: mvs_search_def onesStore_def onesResult_def mvs_store_def newMemory_def
          noOptions_def noFilter_def mapValues_def searchKeeps_def byRelevanceDesc_def
          cosine_self_rounded)
  have v: "mapValues onesStore
             = [\<lparr>memory = newMemory ''id-1'' 1000 ''A'' [1, 1] noOptions, sm_embedding = [1, 1]\<rparr>]"
    by (simp add: onesStore_def mvs_store_def newMemory_def mapValues_def)
  have r: "relevance onesResult = 4503599627370495 / 4503599627370496"
    by (simp add: onesResult_def)
  from search_relevance [OF h, of onesResult "1 / 9007199254740992"]
    h roundingOfSelfSimilarity_keepsSign roundingOfSelfSimilarity_roundsWithin
  show ?thesis by (simp add: v r scaled_def)
qed

text \<open>
  The claim as stated fails: for the query \<open>[1]\<close> and the stored embedding \<open>[-1]\<close>
  the relevance returned is \<open>-1\<close>. No operation of this run rounds.
\<close>

theorem search_relevance_counterexample:
  "map_sum id (map relevance) (fst (mvs_search noRounding [1] 10 noFilter
      (snd (mvs_store (newMemory ''id-1'' 1000 ''A'' [- 1] noOptions) [])))) = Inr [- 1]"
  by (simp add: mvs_search_def mvs_store_def newMemory_def noOptions_def noFilter_def mapValues_def
          searchKeeps_def cosineSimilarity_def byRelevanceDesc_def noRounding_def)

subsection \<open>Importance decay on the in-process store\<close>

lemma mapGet_append_fresh:
  "k \<notin> fst ` set pre \<Longrightarrow> mapGet (pre @ (k, y) # suf) k = Some y"
  by (induction pre) (auto simp: mapGet_def)

lemma mapSet_append_fresh:
  "k \<notin> fst ` set pre \<Longrightarrow> mapSet k x (pre @ (k, y) # suf) = pre @ (k, x) # suf"
  by (induction pre) auto

lemma decayed_id [simp]: "m_id (decayed env d mem) = m_id mem"
  by (simp add: decayed_def Let_def)

lemma decayed_embedding [simp]: "embedding (decayed env d mem) = embedding mem"
  by (simp add: decayed_def Let_def)

lemma decayed_timestamp [simp]: "timestamp (metadata (decayed env d mem)) = timestamp (metadata mem)"
  by (simp add: decayed_def Let_def)

lemma decayed_importance:
  "importance (metadata (decayed env d mem))
     = max 0.1 (importance (metadata mem) * exp (- decayRate env * (d / 30)))"
  by (simp add: decayed_def Let_def)

lemma decayOne_inproc:
  assumes "vsOps env = memoryVectorStore rnd"
      and "vectorStore st = pre @ (k, s) # suf" and "k \<notin> fst ` set pre"
      and "m_id (memory s) = k"
  shows "fst (decayOne env now (memory s) st) = Inr () \<and>
         vectorStore (snd (decayOne env now (memory s) st)) = pre @ (k, decayEntry env now s) # suf"
  using assms
  by (simp add: decayOne_def updateThrough_def Let_def memoryVectorStore_def mvs_update_def
        assignInPlace_def mvs_inPlace_def decayEntry_def ageDaysOf_def mapGet_append_fresh
        mapSet_append_fresh cong: option.case_cong)

lemma decayLoop_inproc:
  assumes "vsOps env = memoryVectorStore rnd"
  shows "vectorStore st = pre @ suf \<Longrightarrow> distinct (map fst (pre @ suf)) \<Longrightarrow>
         list_all (\<lambda>kv. m_id (memory (snd kv)) = fst kv) suf \<Longrightarrow>
         fst (decayLoop env now (map (\<lambda>kv. memory (snd kv)) suf) st) = Inr () \<and>
         vectorStore (snd (decayLoop env now (map (\<lambda>kv. memory (snd kv)) suf) st))
           = pre @ map (\<lambda>kv. (fst kv, decayEntry env now (snd kv))) suf"
proof (induction suf arbitrary: pre st)
  case Nil
  then show ?case by simp
next
  case (Cons kv suf)
  obtain k s where kv: "kv = (k, s)" by (cases kv)
  have fresh: "k \<notin> fst ` set pre" and idk: "m_id (memory s) = k"
    using Cons.prems(2,3) kv by auto
  from decayOne_inproc [OF assms _ fresh idk, of st suf now] Cons.prems(1) kv
  have one: "fst (decayOne env now (memory s) st) = Inr ()"
     "vectorStore (snd (decayOne env now (memory s) st)) = (pre @ [(k, decayEntry env now s)]) @ suf"
    by simp_all
  have d: "distinct (map fst ((pre @ [(k, decayEntry env now s)]) @ suf))"
    using Cons.prems(2) kv by simp
  have w: "list_all (\<lambda>kv. m_id (memory (snd kv)) = fst kv) suf"
    using Cons.prems(3) by simp
  from Cons.IH [OF one(2) d w] one(1) kv show ?case
    by (cases "decayOne env now (memory s) st") auto
qed

lemma applyImportanceDecay_inproc:
  assumes "vsOps env = memoryVectorStore rnd" and "storeWf (vectorStore st)"
  shows "fst (applyImportanceDecay env now st) = Inr () \<and>
         vectorStore (snd (applyImportanceDecay env now st))
           = map (\<lambda>kv. (fst kv, decayEntry env now (snd kv))) (vectorStore st)"
proof -
  have l: "vs_list (vsOps env) noFilter (vectorStore st)
             = (Inr (map (\<lambda>kv. memory (snd kv)) (vectorStore st)), vectorStore st)"
    using assms(1)
    by (simp add: memoryVectorStore_def mvs_list_def noFilter_def listKeeps_def mapValues_def)
  from decayLoop_inproc [OF assms(1), of st "[]" "vectorStore st" now] assms(2)
  show ?thesis
    by (simp add: applyImportanceDecay_def l storeWf_def)
qed

lemma mapGet_map_entries:
  "mapGet (map (\<lambda>kv. (fst kv, g (snd kv))) v) i = map_option g (mapGet v i)"
  by (induction v) (auto simp: mapGet_def)

lemma decayEntry_id [simp]: "m_id (memory (decayEntry env now s)) = m_id (memory s)"
  by (simp add: decayEntry_def)

lemma decayEntry_age [simp]: "ageDaysOf now (memory (decayEntry env now s)) = ageDaysOf now (memory s)"
  by (simp add: decayEntry_def ageDaysOf_def)

lemma decayEntry_importance:
  "importance (metadata (memory (decayEntry env now s)))
     = (if ageDaysOf now (memory s) \<ge> 1
        then max 0.1 (importance (metadata (memory s))
                        * exp (- decayRate env * (ageDaysOf now (memory s) / 30)))
        else importance (metadata (memory s)))"
  by (simp add: decayEntry_def decayed_importance)

lemma decayEntry_twice_importance:
  "importance (metadata (memory (decayEntry env now (decayEntry env now s))))
     = (if ageDaysOf now (memory s) \<ge> 1
        then max 0.1 (max 0.1 (importance (metadata (memory s))
                                 * exp (- decayRate env * (ageDaysOf now (memory s) / 30)))
                        * exp (- decayRate env * (ageDaysOf now (memory s) / 30)))
        else importance (metadata (memory s)))"
  by (simp add: decayEntry_importance)

lemma storeWf_decayed:
  "storeWf v \<Longrightarrow> storeWf (map (\<lambda>kv. (fst kv, decayEntry env now (snd kv))) v)"
  by (simp add: storeWf_def list_all_iff comp_def)

lemma decay_at:
  assumes "vsOps env = memoryVectorStore rnd" and "storeWf (vectorStore st)"
      and "mapGet (vectorStore st) i = Some s"
  shows "fst (applyImportanceDecay env now st) = Inr ()"
    and "storeWf (vectorStore (snd (applyImportanceDecay env now st)))"
    and "mapGet (vectorStore (snd (applyImportanceDecay env now st))) i = Some (decayEntry env now s)"
  using applyImportanceDecay_inproc [OF assms(1,2), of now] assms(2,3)
  by (simp_all add: storeWf_decayed mapGet_map_entries)

lemma exp_tenth_bounds: "(0.9::real) < exp (- 0.1) \<and> exp (- 0.1) < (0.905::real)"
proof -
  have lo: "1 + 0.1 + (0.1::real)\<^sup>2 / 2 \<le> exp 0.1"
    by (rule exp_lower_Taylor_quadratic) simp
  have hi: "exp (0.1::real) \<le> 1 + 0.1 + (0.1)\<^sup>2"
    by (rule exp_bound) simp_all
  have e: "exp (- 0.1 :: real) = 1 / exp 0.1"
    by (simp add: exp_minus inverse_eq_divide)
  have pos: "0 < exp (0.1::real)" by simp
  have "1 / exp (0.1::real) < 0.905"
    using lo pos by (simp add: field_simps power2_eq_square)
  moreover have "0.9 < 1 / exp (0.1::real)"
    using hi pos by (simp add: field_simps power2_eq_square)
  ultimately show ?thesis
    unfolding e by simp
qed

text \<open>
  On the in-process store \<open>applyImportanceDecay\<close> returns, and afterwards the store
  holds, for every record it held before: the importance
  \<open>max(0.1, importance * exp(-decayRate * age_days / 30))\<close> when the age
  \<open>(now - timestamp) / 86400000\<close> is at least one day, and the importance unchanged
  otherwise. A record of importance 1 that is exactly 30 days old gets, at the decay rate 0.1,
  the importance \<open>exp(-0.1)\<close>, a number between 0.9 and 0.905.
\<close>

theorem applyDecay_sets_importance:
  assumes "vsOps env = memoryVectorStore rnd" and "storeWf (vectorStore st)"
      and "mapGet (vectorStore st) i = Some s"
  shows "fst (applyImportanceDecay env now st) = Inr () \<and>
         importanceAt (vectorStore (snd (applyImportanceDecay env now st))) i
           = Some (if (now - timestamp (metadata (memory s))) / 86400000 \<ge> 1
                   then max 0.1 (importance (metadata (memory s))
                          * exp (- decayRate env * ((now - timestamp (metadata (memory s))) / 86400000 / 30)))
                   else importance (metadata (memory s))) \<and>
         (importance (metadata (memory s)) = 1 \<and> now - timestamp (metadata (memory s)) = 30 * 86400000
            \<and> decayRate env = 0.1
          \<longrightarrow> importanceAt (vectorStore (snd (applyImportanceDecay env now st))) i = Some (exp (- 0.1))
              \<and> 0.9 < exp (- 0.1 :: real) \<and> exp (- 0.1 :: real) < 0.905)"
proof -
  have v: "importanceAt (vectorStore (snd (applyImportanceDecay env now st))) i
           = Some (if (now - timestamp (metadata (memory s))) / 86400000 \<ge> 1
                   then max 0.1 (importance (metadata (memory s))
                          * exp (- decayRate env * ((now - timestamp (metadata (memory s))) / 86400000 / 30)))
                   else importance (metadata (memory s)))"
    by (simp add: importanceAt_def decay_at(3) [OF assms] decayEntry_importance ageDaysOf_def)
  have p: "importanceAt (vectorStore (snd (applyImportanceDecay env now st))) i = Some (exp (- 0.1))"
    if "importance (metadata (memory s)) = 1" "now - timestamp (metadata (memory s)) = 30 * 86400000"
       "decayRate env = 0.1"
  proof -
    have a: "(now - timestamp (metadata (memory s))) / 86400000 = 30"
      using that(2) by simp
    show ?thesis
      unfolding v a that(1) that(3) using exp_tenth_bounds by (simp add: max_def)
  qed
  show ?thesis
    using decay_at(1) [OF assms] v p exp_tenth_bounds by blast
qed


lemma square_gap:
  fixes y :: real
  assumes "9 / 10 < y" and "y < 181 / 200"
  shows "y * y < y - 2 / 25"
proof -
  have "y * y < 181 / 200 * y"
    using assms by (intro mult_strict_right_mono) simp_all
  with assms(1) show ?thesis by linarith
qed

lemma agedRecord_facts:
  "vsOps (defaultEnv (memoryVectorStore noRounding) (constantProvider [1])) = memoryVectorStore noRounding"
  "decayRate (defaultEnv (memoryVectorStore noRounding) (constantProvider [1])) = 0.1"
  "storeWf (vectorStore agedRecord)"
  "mapGet (vectorStore agedRecord) ''id-1''
     = Some \<lparr>memory = newMemory ''id-1'' 0 ''A'' [1] (noOptions\<lparr>o_importance := Some 1\<rparr>),
             sm_embedding = [1]\<rparr>"
  by (simp_all add: agedRecord_def storeWf_def run_defs)

theorem applyDecay_sets_importance_witness:
  "fst (applyImportanceDecay (defaultEnv (memoryVectorStore noRounding) (constantProvider [1])) 2592000000 agedRecord)
     = Inr () \<and>
   importanceAt (vectorStore (snd (applyImportanceDecay
       (defaultEnv (memoryVectorStore noRounding) (constantProvider [1])) 2592000000 agedRecord))) ''id-1''
     = Some (exp (- 0.1))"
  using applyDecay_sets_importance [OF agedRecord_facts(1,3,4), of 2592000000]
  by (simp add: agedRecord_facts(2) newMemory_def noOptions_def orElse_def)

text \<open>
  C5, as the code has it. Each run multiplies the stored importance by the factor for the
  whole age of the record, so a second run at the same clock value applies the factor a second
  time: a record at least one day old ends at
  \<open>max(0.1, max(0.1, importance * f) * f)\<close> with
  \<open>f = exp(-decayRate * age_days / 30)\<close>; a younger record keeps its importance.
\<close>

theorem applyDecay_twice:
  assumes "vsOps env = memoryVectorStore rnd" and "storeWf (vectorStore st)"
      and "mapGet (vectorStore st) i = Some s"
  shows "fst (applyImportanceDecay env now (snd (applyImportanceDecay env now st))) = Inr () \<and>
         importanceAt (vectorStore (snd (applyImportanceDecay env now
                                          (snd (applyImportanceDecay env now st))))) i
           = Some (if (now - timestamp (metadata (memory s))) / 86400000 \<ge> 1
                   then max 0.1 (max 0.1 (importance (metadata (memory s))
                          * exp (- decayRate env * ((now - timestamp (metadata (memory s))) / 86400000 / 30)))
                          * exp (- decayRate env * ((now - timestamp (metadata (memory s))) / 86400000 / 30)))
                   else importance (metadata (memory s)))"
proof -
  let ?st1 = "snd (applyImportanceDecay env now st)"
  have w1: "storeWf (vectorStore ?st1)"
    and g1: "mapGet (vectorStore ?st1) i = Some (decayEntry env now s)"
    using decay_at(2,3) [OF assms] by simp_all
  have "mapGet (vectorStore (snd (applyImportanceDecay env now ?st1))) i
          = Some (decayEntry env now (decayEntry env now s))"
    by (rule decay_at(3) [OF assms(1) w1 g1])
  then have "importanceAt (vectorStore (snd (applyImportanceDecay env now ?st1))) i
          = Some (importance (metadata (memory (decayEntry env now (decayEntry env now s)))))"
    by (simp add: importanceAt_def)
  then show ?thesis
    using decay_at(1) [OF assms(1) w1 g1]
    by (simp add: decayEntry_twice_importance ageDaysOf_def)
qed

theorem applyDecay_twice_witness:
  "fst (applyImportanceDecay (defaultEnv (memoryVectorStore noRounding) (constantProvider [1])) 2592000000
         (snd (applyImportanceDecay (defaultEnv (memoryVectorStore noRounding) (constantProvider [1])) 2592000000
                 agedRecord))) = Inr () \<and>
   importanceAt (vectorStore (snd (applyImportanceDecay
       (defaultEnv (memoryVectorStore noRounding) (constantProvider [1])) 2592000000
         (snd (applyImportanceDecay (defaultEnv (memoryVectorStore noRounding) (constantProvider [1])) 2592000000
                 agedRecord))))) ''id-1''
     = Some (max 0.1 (max 0.1 (exp (- 0.1)) * exp (- 0.1)))"
  using applyDecay_twice [OF agedRecord_facts(1,3,4), of 2592000000]
  by (simp add: agedRecord_facts(2) newMemory_def noOptions_def orElse_def)

text \<open>
  The claim as stated fails: for a record of importance 1 that is 30 days old, the second run
  at the same clock value moves the importance by more than \<open>1e-12\<close> (from
  \<open>exp(-0.1)\<close> to \<open>exp(-0.1) * exp(-0.1)\<close>).
\<close>

theorem applyDecay_twice_counterexample:
  "\<not> \<bar>the (importanceAt (vectorStore (snd (applyImportanceDecay
            (defaultEnv (memoryVectorStore noRounding) (constantProvider [1])) 2592000000
            (snd (applyImportanceDecay (defaultEnv (memoryVectorStore noRounding) (constantProvider [1]))
                    2592000000 agedRecord))))) ''id-1'')
       - the (importanceAt (vectorStore (snd (applyImportanceDecay
            (defaultEnv (memoryVectorStore noRounding) (constantProvider [1])) 2592000000 agedRecord))) ''id-1'')\<bar>
      \<le> 1 / 10 ^ 12"
proof -
  let ?env = "defaultEnv (memoryVectorStore noRounding) (constantProvider [1])"
  let ?s = "\<lparr>memory = newMemory ''id-1'' 0 ''A'' [1] (noOptions\<lparr>o_importance := Some 1\<rparr>),
             sm_embedding = [1]\<rparr>"
  let ?st1 = "snd (applyImportanceDecay ?env 2592000000 agedRecord)"
  let ?y = "exp (- 0.1 :: real)"
  have age: "ageDaysOf 2592000000 (memory ?s) = 30"
    and imp: "importance (metadata (memory ?s)) = 1"
    by (simp_all add: ageDaysOf_def newMemory_def noOptions_def orElse_def)
  have i1: "importance (metadata (memory (decayEntry ?env 2592000000 ?s))) = max 0.1 ?y"
    unfolding decayEntry_importance age imp agedRecord_facts(2) by simp
  have w1: "storeWf (vectorStore ?st1)"
    and g1: "mapGet (vectorStore ?st1) ''id-1'' = Some (decayEntry ?env 2592000000 ?s)"
    using decay_at(2,3) [OF agedRecord_facts(1,3,4)] by simp_all
  have g2: "mapGet (vectorStore (snd (applyImportanceDecay ?env 2592000000 ?st1))) ''id-1''
          = Some (decayEntry ?env 2592000000 (decayEntry ?env 2592000000 ?s))"
    by (rule decay_at(3) [OF agedRecord_facts(1) w1 g1])
  have i2: "importance (metadata (memory (decayEntry ?env 2592000000 (decayEntry ?env 2592000000 ?s))))
              = max 0.1 (max 0.1 ?y * ?y)"
    unfolding decayEntry_twice_importance age imp agedRecord_facts(2) by simp
  have b: "9 / 10 < ?y" "?y < 181 / 200"
    using exp_tenth_bounds by simp_all
  have m1: "max 0.1 ?y = ?y"
    using b by (simp add: max_def)
  have gap: "?y * ?y < ?y - 2 / 25"
    by (rule square_gap [OF b])
  have small: "(1::real) / 10 ^ 12 < 2 / 25"
    by simp
  have "max (1 / 10) (?y * ?y) < ?y - 2 / 25"
    using gap b by linarith
  then have "2 / 25 < \<bar>max (1 / 10) (?y * ?y) - ?y\<bar>"
    by linarith
  with small have "\<not> \<bar>max (1 / 10) (?y * ?y) - ?y\<bar> \<le> 1 / 10 ^ 12"
    by linarith
  then have final: "\<not> \<bar>max 0.1 (max 0.1 ?y * ?y) - max 0.1 ?y\<bar> \<le> 1 / 10 ^ 12"
    unfolding m1 by simp
  show ?thesis
    unfolding importanceAt_def g1 g2 option.map option.sel i1 i2 by (rule final)
qed

subsection \<open>Importance decay on the managed store\<close>

lemma pvs_list_result:
  "\<exists>ms. pvs_list client dimensions clock f i = (Inr ms, i) \<and> (\<forall>m\<in>set ms. embedding m = None)"
  by (auto simp: pvs_list_def pvs_search_def split: sum.splits)

lemma pvs_update_no_embedding:
  "embedding mem = None \<Longrightarrow>
   pvs_update client mem i = (Inl (Error ''Memory must have an embedding to store''), i)"
  by (simp add: pvs_update_def pvs_store_def)

lemma decayOne_pinecone:
  assumes "vsOps env = pineconeVectorStore client dimensions clock" and "embedding mem = None"
  shows "decayOne env now mem st
           = (if 1 \<le> ageDaysOf now mem
              then (Inl (Error ''Memory must have an embedding to store''), st)
              else (Inr (), st))"
  using assms
  by (simp add: decayOne_def updateThrough_def Let_def ageDaysOf_def pineconeVectorStore_def
        assignInPlace_def pvs_update_no_embedding decayed_def)

lemma decayLoop_pinecone:
  assumes "vsOps env = pineconeVectorStore client dimensions clock"
  shows "\<forall>m\<in>set ms. embedding m = None \<Longrightarrow>
         decayLoop env now ms st
           = (if \<exists>m\<in>set ms. 1 \<le> ageDaysOf now m
              then (Inl (Error ''Memory must have an embedding to store''), st)
              else (Inr (), st))"
proof (induction ms)
  case Nil
  show ?case by simp
next
  case (Cons m ms)
  have one: "decayOne env now m st
           = (if 1 \<le> ageDaysOf now m
              then (Inl (Error ''Memory must have an embedding to store''), st)
              else (Inr (), st))"
    using Cons.prems by (intro decayOne_pinecone [OF assms]) simp
  show ?case
  proof (cases "1 \<le> ageDaysOf now m")
    case True
    with one show ?thesis by simp
  next
    case False
    with one Cons show ?thesis by simp
  qed
qed

text \<open>
  On the managed store \<open>applyImportanceDecay\<close> changes nothing, whether it rejects or
  returns.
\<close>

lemma applyDecay_never_persists_on_pinecone:
  assumes "vsOps env = pineconeVectorStore client dimensions clock"
  shows "snd (applyImportanceDecay env now st) = st"
proof -
  from pvs_list_result [of client dimensions clock noFilter "vectorStore st"] obtain ms where
    ms: "pvs_list client dimensions clock noFilter (vectorStore st) = (Inr ms, vectorStore st)"
      and none: "\<forall>m\<in>set ms. embedding m = None"
    by blast
  have "vs_list (vsOps env) noFilter (vectorStore st) = (Inr ms, vectorStore st)"
    using ms assms by (simp add: pineconeVectorStore_def)
  then have "applyImportanceDecay env now st = decayLoop env now ms st"
    by (simp add: applyImportanceDecay_def)
  then show ?thesis
    using decayLoop_pinecone [OF assms none, of now st] by simp
qed

text \<open>
  C4. The claim does not hold on the managed store. Its \<open>list\<close> returns records without
  \<open>embedding\<close>, and its \<open>update\<close> is its \<open>store\<close>, which rejects a record without
  \<open>embedding\<close>. So whenever the listing holds a record that is at least one day old,
  \<open>applyImportanceDecay\<close> rejects with that error at the first such record and leaves the
  manager and the index as they were, whatever the index answers: no importance is set and
  none is persisted.
\<close>

theorem applyDecay_rejects_on_pinecone:
  assumes "vsOps env = pineconeVectorStore client dimensions clock"
      and "fst (vs_list (vsOps env) noFilter (vectorStore st)) = Inr allMemories"
      and "m \<in> set allMemories" and "1 \<le> ageDaysOf now m"
  shows "applyImportanceDecay env now st
           = (Inl (Error ''Memory must have an embedding to store''), st)"
proof -
  from pvs_list_result [of client dimensions clock noFilter "vectorStore st"] obtain ms where
    ms: "pvs_list client dimensions clock noFilter (vectorStore st) = (Inr ms, vectorStore st)"
      and none: "\<forall>m\<in>set ms. embedding m = None"
    by blast
  have l: "vs_list (vsOps env) noFilter (vectorStore st) = (Inr ms, vectorStore st)"
    using ms assms(1) by (simp add: pineconeVectorStore_def)
  with assms(2) have "ms = allMemories" by simp
  with assms(3,4) have aged: "\<exists>m\<in>set ms. 1 \<le> ageDaysOf now m" by blast
  have "applyImportanceDecay env now st = decayLoop env now ms st"
    using l by (simp add: applyImportanceDecay_def)
  also have "\<dots> = (Inl (Error ''Memory must have an embedding to store''), st)"
    using decayLoop_pinecone [OF assms(1) none, of now st] aged by simp
  finally show ?thesis .
qed

text \<open>
  The run on the managed store: \<open>store('A', {importance: 1})\<close> at time 1000, and
  \<open>applyImportanceDecay\<close> thirty days later. The listing holds the record, thirty days
  old; the call rejects, and the index still holds the importance 1.
\<close>

lemmas managed_defs =
  agedManagedRecord_def managedEnv_def store_def defaultEnv_def pineconeVectorStore_def
  pvs_store_def pvs_update_def pvs_get_def standInIndex_def constantProvider_def newMemory_def
  noOptions_def orElse_def determineInitialLayer_def memoryToVector_def NAMESPACE_def Let_def
  pvs_list_def pvs_search_def noFilter_def pvs_buildFilter_def vectorToMemory_def orNumber_def
  orString_def listedRecord_def mapGet_def

theorem applyDecay_rejects_on_pinecone_witness:
  "fst (vs_list (vsOps (managedEnv 2592001000)) noFilter (vectorStore agedManagedRecord))
     = Inr [listedRecord]
   \<and> ageDaysOf 2592001000 listedRecord = 30
   \<and> applyImportanceDecay (managedEnv 2592001000) 2592001000 agedManagedRecord
       = (Inl (Error ''Memory must have an embedding to store''), agedManagedRecord)
   \<and> map_sum id (map_option (\<lambda>m. importance (metadata m)))
        (fst (vs_get (vsOps (managedEnv 2592001000)) ''id-1''
                (vectorStore (snd (applyImportanceDecay (managedEnv 2592001000) 2592001000
                                     agedManagedRecord)))))
       = Inr (Some 1)"
proof -
  have e: "vsOps (managedEnv 2592001000) = pineconeVectorStore standInIndex 1 2592001000"
    by (simp add: managedEnv_def defaultEnv_def)
  have l: "fst (vs_list (vsOps (managedEnv 2592001000)) noFilter (vectorStore agedManagedRecord))
             = Inr [listedRecord]"
    by (simp add: managed_defs)
  have a: "ageDaysOf 2592001000 listedRecord = 30"
    by (simp add: ageDaysOf_def listedRecord_def)
  have g: "map_sum id (map_option (\<lambda>m. importance (metadata m)))
             (fst (vs_get (vsOps (managedEnv 2592001000)) ''id-1'' (vectorStore agedManagedRecord)))
             = Inr (Some 1)"
    by (simp add: managed_defs)
  from applyDecay_rejects_on_pinecone [OF e l, of listedRecord 2592001000] a l g
  show ?thesis by simp
qed

subsection \<open>Access counters when an update fails\<close>

lemma mapSet_keys: "k \<in> fst ` set m \<Longrightarrow> map fst (mapSet k x m) = map fst m"
  by (induction m) force+

lemma mapGet_in_keys: "k \<in> fst ` set m \<Longrightarrow> \<exists>y. mapGet m k = Some y \<and> (k, y) \<in> set m"
  by (induction m) (auto simp: mapGet_def)

lemma mapGet_Some_mem: "mapGet m k = Some y \<Longrightarrow> (k, y) \<in> set m"
  by (simp add: mapGet_def map_of_SomeD)

lemma mapSet_set: "set (mapSet k x m) \<subseteq> insert (k, x) (set m)"
  by (induction m) (auto split: if_splits)

lemma storeWf_mapSet:
  assumes "storeWf v" and "k \<in> fst ` set v" and "m_id (memory x) = k"
  shows "storeWf (mapSet k x v)"
  using assms mapSet_set [of k x v]
  by (auto simp: storeWf_def mapSet_keys list_all_iff)

lemma cacheWf_mapSet:
  assumes "cacheWf wm" and "m_id x = k"
  shows "cacheWf (mapSet k x wm)"
  using assms mapSet_set [of k x wm]
  by (auto simp: cacheWf_def list_all_iff)

lemma storeWf_lookup:
  assumes "storeWf v" and "k \<in> fst ` set v"
  shows "\<exists>s. mapGet v k = Some s \<and> m_id (memory s) = k"
proof -
  from mapGet_in_keys [OF assms(2)] obtain s where s: "mapGet v k = Some s" "(k, s) \<in> set v"
    by blast
  with assms(1) have "m_id (memory s) = k"
    by (auto simp: storeWf_def list_all_iff)
  with s show ?thesis by blast
qed

lemma cacheWf_lookup:
  assumes "cacheWf wm" and "mapGet wm k = Some m"
  shows "m_id m = k"
proof -
  have "(k, m) \<in> set wm"
    using assms(2) by (rule mapGet_Some_mem)
  with assms(1) show ?thesis
    by (force simp: cacheWf_def list_all_iff)
qed

lemma get_known:
  assumes "vsOps env = failingUpdates bad (memoryVectorStore rnd)"
      and "storeWf (vectorStore st)" and "cacheWf (workingMemory st)"
      and "i \<in> fst ` set (vectorStore st)"
  shows "\<exists>mem. get env i st = (Inr (Some mem), st) \<and> m_id mem = i"
proof (cases "mapGet (workingMemory st) i")
  case (Some w)
  with cacheWf_lookup [OF assms(3) Some] show ?thesis
    by (simp add: get_def)
next
  case None
  from storeWf_lookup [OF assms(2,4)] obtain s where "mapGet (vectorStore st) i = Some s" "m_id (memory s) = i"
    by blast
  with None assms(1) show ?thesis
    by (simp add: get_def failingUpdates_def memoryVectorStore_def mvs_get_def)
qed

lemma updateAccessCount_bad:
  assumes "vsOps env = failingUpdates bad (memoryVectorStore rnd)"
      and "storeWf (vectorStore st)" and "cacheWf (workingMemory st)"
      and "i \<in> fst ` set (vectorStore st)" and "i \<in> bad"
  shows "fst (updateAccessCount env now i st) = Inl (Error ''fetch failed'')"
proof -
  from get_known [OF assms(1-4)] obtain mem where g: "get env i st = (Inr (Some mem), st)" "m_id mem = i"
    by blast
  with assms(1,5) show ?thesis
    by (simp add: updateAccessCount_def Let_def failingUpdates_def assignInPlace_def
          memoryVectorStore_def)
qed

lemma updateAccessCount_good:
  assumes "vsOps env = failingUpdates bad (memoryVectorStore rnd)"
      and "storeWf (vectorStore st)" and "cacheWf (workingMemory st)"
      and "i \<in> fst ` set (vectorStore st)" and "i \<notin> bad"
  shows "fst (updateAccessCount env now i st) = Inr () \<and>
         storeWf (vectorStore (snd (updateAccessCount env now i st))) \<and>
         cacheWf (workingMemory (snd (updateAccessCount env now i st))) \<and>
         map fst (vectorStore (snd (updateAccessCount env now i st))) = map fst (vectorStore st)"
proof -
  from get_known [OF assms(1-4)] obtain mem where g: "get env i st = (Inr (Some mem), st)" "m_id mem = i"
    by blast
  from storeWf_lookup [OF assms(2,4)] obtain s where s: "mapGet (vectorStore st) i = Some s"
    by blast
  define mem' where "mem' = mem\<lparr>metadata := (metadata mem)\<lparr>accessCount := accessCount (metadata mem) + 1,
                                                           lastAccessed := now\<rparr>\<rparr>"
  define entry where "entry = \<lparr>memory = mem',
       sm_embedding = (case embedding mem' of Some e \<Rightarrow> e | None \<Rightarrow> sm_embedding s)\<rparr>"
  have id': "m_id mem' = i"
    using g(2) by (simp add: mem'_def)
  have inplace: "vs_inPlace (vsOps env) = Some mvs_inPlace"
    by (simp add: assms(1) failingUpdates_def memoryVectorStore_def)
  have shared: "mvs_inPlace mem' (vectorStore st) = mapSet i (s\<lparr>memory := mem'\<rparr>) (vectorStore st)"
    using s id' by (simp add: mvs_inPlace_def)
  have up: "vs_update (vsOps env) mem' (mapSet i (s\<lparr>memory := mem'\<rparr>) (vectorStore st))
              = (Inr (), mapSet i entry (vectorStore st))"
    using assms(5) id'
    by (simp add: assms(1) failingUpdates_def memoryVectorStore_def mvs_update_def entry_def
          mapGet_mapSet_same mapSet_mapSet cong: option.case_cong)
  have res: "updateAccessCount env now i st =
               (Inr (), st\<lparr>workingMemory := (if mapHas (workingMemory st) i
                                               then mapSet i mem' (workingMemory st)
                                               else workingMemory st),
                           vectorStore := mapSet i entry (vectorStore st)\<rparr>)"
    using g(1) up id' inplace shared
    by (cases "mapHas (workingMemory st) i")
       (simp_all add: updateAccessCount_def Let_def mem'_def assignInPlace_def mapSet_mapSet
          mapHas_mapSet)
  have w: "storeWf (mapSet i entry (vectorStore st))"
    by (rule storeWf_mapSet [OF assms(2,4)]) (simp add: entry_def id')
  have c: "cacheWf (mapSet i mem' (workingMemory st))"
    by (rule cacheWf_mapSet [OF assms(3) id'])
  show ?thesis
    unfolding res using w c assms(3) mapSet_keys [OF assms(4), of entry] by simp
qed

lemma updateAccessCounts_bad:
  assumes "vsOps env = failingUpdates bad (memoryVectorStore rnd)"
  shows "storeWf (vectorStore st) \<Longrightarrow> cacheWf (workingMemory st) \<Longrightarrow>
         set ids \<subseteq> fst ` set (vectorStore st) \<Longrightarrow> \<exists>i\<in>set ids. i \<in> bad \<Longrightarrow>
         fst (updateAccessCounts env now ids st) = Inl (Error ''fetch failed'')"
proof (induction ids arbitrary: st)
  case Nil
  then show ?case by simp
next
  case (Cons i ids)
  have k: "i \<in> fst ` set (vectorStore st)"
    using Cons.prems(3) by simp
  show ?case
  proof (cases "i \<in> bad")
    case True
    from updateAccessCount_bad [OF assms Cons.prems(1,2) k True, of now]
    show ?thesis
      by (cases "updateAccessCount env now i st") (auto split: sum.splits)
  next
    case False
    let ?st1 = "snd (updateAccessCount env now i st)"
    from updateAccessCount_good [OF assms Cons.prems(1,2) k False, of now]
    have ok: "fst (updateAccessCount env now i st) = Inr ()"
      and w: "storeWf (vectorStore ?st1)" and c: "cacheWf (workingMemory ?st1)"
      and keys: "map fst (vectorStore ?st1) = map fst (vectorStore st)"
      by simp_all
    have sub: "set ids \<subseteq> fst ` set (vectorStore ?st1)"
      using Cons.prems(3) keys by (metis list.set_map set_subset_Cons subset_trans)
    have ex: "\<exists>i\<in>set ids. i \<in> bad"
      using Cons.prems(4) False by auto
    from Cons.IH [OF w c sub ex] ok show ?thesis
      by (cases "updateAccessCount env now i st") auto
  qed
qed

lemma mvs_search_store: "snd (mvs_search rnd q k f v) = v"
  by (simp add: mvs_search_def split: sum.splits)

lemma storeWf_value_key:
  assumes "storeWf v" and "s \<in> set (mapValues v)"
  shows "m_id (memory s) \<in> fst ` set v"
  using assms by (force simp: storeWf_def mapValues_def list_all_iff)

text \<open>
  C6, as the code has it. \<open>search\<close> awaits \<open>updateAccessCount\<close> for every surviving
  result with no handler around it. On the in-process store with an \<open>update\<close> that
  rejects for the ids in \<open>bad\<close>: when some result of the backend search that passes
  \<open>minRelevance\<close> has its id in \<open>bad\<close>, \<open>search\<close> rejects with the error of the
  failed write and returns no result list.
\<close>

theorem search_rejects_when_update_fails:
  assumes "vsOps env = failingUpdates bad (memoryVectorStore rnd)"
      and "storeWf (vectorStore st)" and "cacheWf (workingMemory st)"
      and "embed (epOps env) query (embeddingProvider st) = (Inr q, p')"
      and "mvs_search rnd q (orElse (limit options) 10 * 2) (buildFilter options) (vectorStore st)
             = (Inr found, v')"
      and "r \<in> set found" and "relevance r \<ge> orElse (minRelevance options) 0"
      and "r_id r \<in> bad"
  shows "fst (search env now query options st) = Inl (Error ''fetch failed'')"
proof -
  let ?results = "filter (\<lambda>r. relevance r \<ge> orElse (minRelevance options) 0) found"
  let ?st1 = "st\<lparr>embeddingProvider := p', vectorStore := v'\<rparr>"
  have v': "v' = vectorStore st"
    using mvs_search_store [of rnd q "orElse (limit options) 10 * 2" "buildFilter options" "vectorStore st"]
      assms(5) by simp
  have s: "vs_search (vsOps env) = mvs_search rnd"
    by (simp add: assms(1) failingUpdates_def memoryVectorStore_def)
  have sub: "set (map r_id ?results) \<subseteq> fst ` set (vectorStore ?st1)"
  proof
    fix i assume "i \<in> set (map r_id ?results)"
    then obtain x where x: "x \<in> set found" "i = r_id x" by auto
    from mvs_search_result [OF assms(5) x(1)] obtain sm where
      "sm \<in> set (mapValues (vectorStore st))" "r_id x = m_id (memory sm)" by blast
    with storeWf_value_key [OF assms(2)] x(2) show "i \<in> fst ` set (vectorStore ?st1)"
      by (simp add: v')
  qed
  have ex: "\<exists>i\<in>set (map r_id ?results). i \<in> bad"
    using assms(6,7,8) by auto
  have "fst (updateAccessCounts env now (map r_id ?results) ?st1) = Inl (Error ''fetch failed'')"
    by (rule updateAccessCounts_bad [OF assms(1) _ _ sub ex]) (simp_all add: v' assms(2,3))
  then show ?thesis
    using assms(4,5)
    by (cases "updateAccessCounts env now (map r_id ?results) ?st1")
       (simp add: search_def Let_def s)
qed

lemma threeLayers_facts:
  "storeWf (vectorStore threeLayers)" "cacheWf (workingMemory threeLayers)"
  "mvs_search noRounding [1] (orElse (limit defaultSearch) 10 * 2) (buildFilter defaultSearch) (vectorStore threeLayers)
     = (Inr [\<lparr>r_id = ''id-1'', r_content = ''Test 1'', relevance = 1,
               r_metadata = metadata (newMemory ''id-1'' 1000 ''Test 1'' [1] (noOptions\<lparr>o_layer := Some WORKING\<rparr>))\<rparr>,
             \<lparr>r_id = ''id-2'', r_content = ''Test 2'', relevance = 1,
               r_metadata = metadata (newMemory ''id-2'' 1000 ''Test 2'' [1] (noOptions\<lparr>o_layer := Some SHORT_TERM\<rparr>))\<rparr>,
             \<lparr>r_id = ''id-3'', r_content = ''Test 3'', relevance = 1,
               r_metadata = metadata (newMemory ''id-3'' 1000 ''Test 3'' [1] (noOptions\<lparr>o_layer := Some LONG_TERM\<rparr>))\<rparr>],
        vectorStore threeLayers)"
  by (simp_all add: storeWf_def cacheWf_def threeLayers_def run_defs defaultSearch_def buildFilter_def
        mvs_search_def mapValues_def searchKeeps_def cosineSimilarity_def byRelevanceDesc_def)

theorem search_rejects_when_update_fails_witness:
  "fst (search (defaultEnv (failingUpdates {''id-2''} (memoryVectorStore noRounding)) (constantProvider [1]))
          2000 ''Test'' defaultSearch threeLayers) = Inl (Error ''fetch failed'')"
proof -
  have e: "vsOps (defaultEnv (failingUpdates {''id-2''} (memoryVectorStore noRounding)) (constantProvider [1]))
             = failingUpdates {''id-2''} (memoryVectorStore noRounding)"
    by (simp add: defaultEnv_def)
  have p: "embed (epOps (defaultEnv (failingUpdates {''id-2''} (memoryVectorStore noRounding)) (constantProvider [1])))
             ''Test'' (embeddingProvider threeLayers) = (Inr [1], ())"
    by (simp add: defaultEnv_def constantProvider_def)
  show ?thesis
    by (rule search_rejects_when_update_fails
              [OF e threeLayers_facts(1,2) p threeLayers_facts(3),
               of "\<lparr>r_id = ''id-2'', r_content = ''Test 2'', relevance = 1,
               r_metadata = metadata (newMemory ''id-2'' 1000 ''Test 2'' [1] (noOptions\<lparr>o_layer := Some SHORT_TERM\<rparr>))\<rparr>"])
       (simp_all add: defaultSearch_def orElse_def)
qed

text \<open>
  The claim as stated fails: with a backend that rejects writes, a search that finds stored
  records rejects.
\<close>

theorem search_update_failure_counterexample:
  "fst (search (defaultEnv (unreachableForWrites (memoryVectorStore noRounding)) (constantProvider [1]))
          2000 ''Test'' defaultSearch threeLayers) = Inl (Error ''fetch failed'')"
  by (simp add: search_def buildFilter_def defaultSearch_def threeLayers_def run_defs mvs_search_def
     mapValues_def searchKeeps_def cosineSimilarity_def byRelevanceDesc_def updateAccessCount_def
     get_def mapHas_def assignInPlace_def mvs_inPlace_def)

subsection \<open>The range of importance\<close>

lemma list_all_mapSet: "Q (k, x) \<Longrightarrow> list_all Q m \<Longrightarrow> list_all Q (mapSet k x m)"
  by (induction m) auto

lemma list_all_mapDelete: "list_all Q m \<Longrightarrow> list_all Q (mapDelete k m)"
  by (simp add: mapDelete_def list_all_iff)

lemma list_all_deleteFromWorkingMemory:
  "list_all Q wm \<Longrightarrow> list_all Q (deleteFromWorkingMemory ids wm)"
  unfolding deleteFromWorkingMemory_def
  by (induction ids arbitrary: wm) (simp_all add: list_all_mapDelete)

lemma list_all_mvs_deleteLoop:
  "list_all Q v \<Longrightarrow> list_all Q (snd (mvs_deleteLoop ids n v))"
  by (induction ids arbitrary: n v) (simp_all add: list_all_mapDelete)

lemma mvs_update_all:
  assumes "list_all (\<lambda>kv. importanceOk (memory (snd kv))) v" and "importanceOk m"
  shows "list_all (\<lambda>kv. importanceOk (memory (snd kv))) (snd (mvs_update m v))"
  using assms by (simp add: mvs_update_def list_all_mapSet split: option.splits)

lemma newMemory_ok:
  "importanceOk (newMemory newId now text emb options)
     \<longleftrightarrow> 0 \<le> orElse (o_importance options) 0.5 \<and> orElse (o_importance options) 0.5 \<le> 1"
  by (simp add: importanceOk_def newMemory_def)

lemma store_invariant:
  assumes "vsOps env = memoryVectorStore rnd" and "importanceInvariant st"
      and "0 \<le> orElse (o_importance options) 0.5" and "orElse (o_importance options) 0.5 \<le> 1"
  shows "importanceInvariant (snd (store env newId now text options st))"
proof (cases "embed (epOps env) text (embeddingProvider st)")
  case (Pair r p')
  show ?thesis
  proof (cases r)
    case (Inl e)
    with Pair assms(2) show ?thesis
      by (simp add: store_def importanceInvariant_def)
  next
    case (Inr emb)
    have ok: "importanceOk (newMemory newId now text emb options)"
      using assms(3,4) by (simp add: newMemory_ok)
    have emb: "embedding (newMemory newId now text emb options) = Some emb"
      by (simp add: newMemory_def)
    show ?thesis
      using Pair Inr assms(1,2) ok
      by (simp add: store_def Let_def importanceInvariant_def memoryVectorStore_def mvs_store_def
            emb list_all_mapSet)
  qed
qed

lemma decayed_ok:
  assumes "importanceOk mem" and "0 \<le> decayRate env" and "1 \<le> d"
  shows "importanceOk (decayed env d mem)"
proof -
  have f: "exp (- decayRate env * (d / 30)) \<le> 1"
    using assms(2,3) by simp
  have "importance (metadata mem) * exp (- decayRate env * (d / 30)) \<le> importance (metadata mem)"
    using assms(1) f by (simp add: importanceOk_def mult_left_le)
  then show ?thesis
    using assms(1) by (simp add: importanceOk_def decayed_importance)
qed

lemma assignInPlace_invariant:
  assumes "vsOps env = memoryVectorStore rnd" and "importanceInvariant st" and "importanceOk mem"
  shows "importanceInvariant (assignInPlace env mem st)"
  using assms
  by (simp add: assignInPlace_def memoryVectorStore_def mvs_inPlace_def importanceInvariant_def
        list_all_mapSet split: option.splits)

lemma updateThrough_invariant:
  assumes "vsOps env = memoryVectorStore rnd" and "importanceInvariant st" and "importanceOk m"
  shows "importanceInvariant (snd (updateThrough env m st))"
proof -
  let ?st0 = "assignInPlace env m st"
  have i0: "importanceInvariant ?st0"
    by (rule assignInPlace_invariant [OF assms])
  have u: "list_all (\<lambda>kv. importanceOk (memory (snd kv))) (snd (mvs_update m (vectorStore ?st0)))"
    using i0 assms(3) by (simp add: mvs_update_all importanceInvariant_def)
  have c: "list_all (\<lambda>kv. importanceOk (snd kv)) (mapSet (m_id m) m (workingMemory ?st0))"
    using i0 assms(3) by (simp add: list_all_mapSet importanceInvariant_def)
  show ?thesis
    using u c assms(1) i0
    by (cases "mvs_update m (vectorStore ?st0)")
       (auto simp: updateThrough_def Let_def memoryVectorStore_def importanceInvariant_def
             split: sum.splits)
qed

lemma decayOne_invariant:
  assumes "vsOps env = memoryVectorStore rnd" and "importanceInvariant st"
      and "importanceOk mem" and "0 \<le> decayRate env"
  shows "importanceInvariant (snd (decayOne env now mem st))"
proof (cases "(now - timestamp (metadata mem)) / (1000 * 60 * 60 * 24) \<ge> 1")
  case False
  with assms(2) show ?thesis
    by (simp add: decayOne_def Let_def)
next
  case True
  have "importanceInvariant (snd (updateThrough env
          (decayed env ((now - timestamp (metadata mem)) / (1000 * 60 * 60 * 24)) mem) st))"
    by (rule updateThrough_invariant [OF assms(1,2) decayed_ok [OF assms(3,4) True]])
  with True show ?thesis
    by (simp add: decayOne_def Let_def)
qed

lemma decayLoop_invariant:
  assumes "vsOps env = memoryVectorStore rnd" and "0 \<le> decayRate env"
  shows "importanceInvariant st \<Longrightarrow> list_all importanceOk ms \<Longrightarrow>
         importanceInvariant (snd (decayLoop env now ms st))"
proof (induction ms arbitrary: st)
  case Nil
  then show ?case by simp
next
  case (Cons mem ms)
  have one: "importanceInvariant (snd (decayOne env now mem st))"
    using decayOne_invariant [OF assms(1) Cons.prems(1) _ assms(2)] Cons.prems(2) by simp
  show ?case
  proof (cases "decayOne env now mem st")
    case (Pair r st1)
    with one Cons.IH [of st1] Cons.prems(2) show ?thesis
      by (cases r) simp_all
  qed
qed

lemma listed_ok:
  assumes "importanceInvariant st"
  shows "list_all importanceOk (filter (listKeeps f) (map memory (mapValues (vectorStore st))))"
  using assms by (auto simp: importanceInvariant_def list_all_iff mapValues_def)

lemma applyImportanceDecay_invariant:
  assumes "vsOps env = memoryVectorStore rnd" and "0 \<le> decayRate env" and "importanceInvariant st"
  shows "importanceInvariant (snd (applyImportanceDecay env now st))"
  using decayLoop_invariant [OF assms(1,2) assms(3) listed_ok [OF assms(3)], of now noFilter]
  by (simp add: applyImportanceDecay_def assms(1) memoryVectorStore_def mvs_list_def)

lemma attenuated_ok: "importanceOk mem \<Longrightarrow> importanceOk (attenuated mem)"
  by (simp add: importanceOk_def attenuated_def)

lemma relayered_ok: "importanceOk mem \<Longrightarrow> importanceOk (mem\<lparr>metadata := (metadata mem)\<lparr>layer := l\<rparr>\<rparr>)"
  by (simp add: importanceOk_def)

lemma rebalanceOne_cases:
  "rebalanceOne env now mem st = (Inr (), st) \<or>
   rebalanceOne env now mem st = (Inr (), assignInPlace env (attenuated mem) st) \<or>
   (\<exists>l. rebalanceOne env now mem st
          = updateThrough env (mem\<lparr>metadata := (metadata mem)\<lparr>layer := l\<rparr>\<rparr>) st)"
  by (auto simp: rebalanceOne_def Let_def)

lemma rebalanceOne_invariant:
  assumes "vsOps env = memoryVectorStore rnd" and "importanceInvariant st" and "importanceOk mem"
  shows "importanceInvariant (snd (rebalanceOne env now mem st))"
proof -
  have a: "importanceInvariant (assignInPlace env (attenuated mem) st)"
    by (rule assignInPlace_invariant [OF assms(1,2) attenuated_ok [OF assms(3)]])
  have u: "importanceInvariant
             (snd (updateThrough env (mem\<lparr>metadata := (metadata mem)\<lparr>layer := l\<rparr>\<rparr>) st))" for l
    by (rule updateThrough_invariant [OF assms(1,2) relayered_ok [OF assms(3)]])
  from rebalanceOne_cases [of env now mem st] show ?thesis
  proof (elim disjE exE)
    assume "rebalanceOne env now mem st = (Inr (), st)"
    with assms(2) show ?thesis by simp
  next
    assume "rebalanceOne env now mem st = (Inr (), assignInPlace env (attenuated mem) st)"
    with a show ?thesis by simp
  next
    fix l
    assume "rebalanceOne env now mem st
              = updateThrough env (mem\<lparr>metadata := (metadata mem)\<lparr>layer := l\<rparr>\<rparr>) st"
    with u [of l] show ?thesis by simp
  qed
qed

lemma rebalanceLoop_invariant:
  assumes "vsOps env = memoryVectorStore rnd"
  shows "importanceInvariant st \<Longrightarrow> list_all importanceOk ms \<Longrightarrow>
         importanceInvariant (snd (rebalanceLoop env now ms st))"
proof (induction ms arbitrary: st)
  case Nil
  then show ?case by simp
next
  case (Cons mem ms)
  have one: "importanceInvariant (snd (rebalanceOne env now mem st))"
    using rebalanceOne_invariant [OF assms(1) Cons.prems(1)] Cons.prems(2) by simp
  show ?case
  proof (cases "rebalanceOne env now mem st")
    case (Pair r st1)
    with one Cons.IH [of st1] Cons.prems(2) show ?thesis
      by (cases r) simp_all
  qed
qed

lemma rebalanceLayers_invariant:
  assumes "vsOps env = memoryVectorStore rnd" and "importanceInvariant st"
  shows "importanceInvariant (snd (rebalanceLayers env now st))"
  using rebalanceLoop_invariant [OF assms(1) assms(2) listed_ok [OF assms(2)], of now noFilter]
  by (simp add: rebalanceLayers_def assms(1) memoryVectorStore_def mvs_list_def)

lemma groupByTagsLoop_members:
  "groupByTagsLoop ms groups = Inr out \<Longrightarrow> list_all importanceOk ms \<Longrightarrow>
   list_all (\<lambda>kv. list_all importanceOk (snd kv)) groups \<Longrightarrow>
   list_all (\<lambda>kv. list_all importanceOk (snd kv)) out"
proof (induction ms arbitrary: groups)
  case Nil
  then show ?case by simp
next
  case (Cons mem ms)
  let ?tag = "primaryTagOf mem"
  let ?groups = "mapSet ?tag (orElse (mapGet groups ?tag) [] @ [mem]) groups"
  from Cons.prems(1) have r: "groupByTagsLoop ms ?groups = Inr out"
    by (simp add: Let_def split: if_splits)
  have old: "list_all importanceOk (orElse (mapGet groups ?tag) [])"
  proof (cases "mapGet groups ?tag")
    case None
    then show ?thesis by (simp add: orElse_def)
  next
    case (Some g)
    then have "(?tag, g) \<in> set groups" by (rule mapGet_Some_mem)
    with Cons.prems(3) Some show ?thesis
      by (force simp: orElse_def list_all_iff)
  qed
  have "list_all (\<lambda>kv. list_all importanceOk (snd kv)) ?groups"
    using old Cons.prems(2,3) by (intro list_all_mapSet) simp_all
  with Cons.IH [OF r] Cons.prems(2) show ?case by simp
qed

lemma objectEntries_all: "list_all Q obj \<Longrightarrow> list_all Q (objectEntries obj)"
  by (auto simp: objectEntries_def list_all_iff)

lemma average_in_range:
  assumes "list_all importanceOk ms" and "ms \<noteq> []"
  shows "0 \<le> sum_list (map (\<lambda>m. importance (metadata m)) ms) / real (length ms) * 0.9 \<and>
         sum_list (map (\<lambda>m. importance (metadata m)) ms) / real (length ms) * 0.9 \<le> 1"
proof -
  have lo: "0 \<le> sum_list (map (\<lambda>m. importance (metadata m)) ms)"
    using assms(1) by (intro sum_list_nonneg) (auto simp: list_all_iff importanceOk_def)
  have "sum_list (map (\<lambda>m. importance (metadata m)) ms) \<le> sum_list (map (\<lambda>m. 1) ms)"
    using assms(1) by (intro sum_list_mono) (auto simp: list_all_iff importanceOk_def)
  then have hi: "sum_list (map (\<lambda>m. importance (metadata m)) ms) \<le> real (length ms)"
    by (simp add: sum_list_triv)
  have pos: "0 < real (length ms)"
    using assms(2) by simp
  have "sum_list (map (\<lambda>m. importance (metadata m)) ms) / real (length ms) \<le> 1"
    using hi pos by (simp add: field_simps)
  moreover have "0 \<le> sum_list (map (\<lambda>m. importance (metadata m)) ms) / real (length ms)"
    using lo pos by simp
  ultimately show ?thesis by simp
qed

lemma mvs_deleteBatch_value:
  "mvs_deleteBatch ids v = (Inr (fst (mvs_deleteLoop ids 0 v)), snd (mvs_deleteLoop ids 0 v))"
  by (simp add: mvs_deleteBatch_def split: prod.splits)

lemma deleteBatch_invariant:
  assumes "importanceInvariant st"
  shows "importanceInvariant
           (st\<lparr>vectorStore := snd (mvs_deleteLoop ids 0 (vectorStore st)),
               workingMemory := deleteFromWorkingMemory ids (workingMemory st)\<rparr>)"
  using assms
  by (simp add: importanceInvariant_def list_all_mvs_deleteLoop list_all_deleteFromWorkingMemory)

lemma consolidateGroups_invariant:
  assumes "vsOps env = memoryVectorStore rnd"
  shows "importanceInvariant st \<Longrightarrow> list_all (\<lambda>kv. list_all importanceOk (snd kv)) groups \<Longrightarrow>
         importanceInvariant (snd (consolidateGroups env uuids now k groups acc st))"
proof (induction groups arbitrary: k acc st)
  case Nil
  then show ?case by simp
next
  case (Cons g groups)
  obtain tag memories where g: "g = (tag, memories)" by (cases g)
  obtain cons del where acc: "acc = (cons, del)" by (cases acc)
  have rest: "list_all (\<lambda>kv. list_all importanceOk (snd kv)) groups"
    and mem_ok: "list_all importanceOk memories"
    using Cons.prems(2) g by simp_all
  show ?case
  proof (cases "length memories < 3")
    case True
    with Cons.IH [OF Cons.prems(1) rest] g acc show ?thesis by simp
  next
    case False
    then have ne: "memories \<noteq> []" by auto
    let ?opts = "\<lparr>o_importance = Some (sum_list (map (\<lambda>m. importance (metadata m)) memories)
                                           / real (length memories) * 0.9),
                  o_tags = Some (uniqueInOrder (concat (map (\<lambda>m. tags (metadata m)) memories))
                                 @ [tag, ''consolidated'']),
                  o_source = Some SYSTEM, o_layer = Some LONG_TERM\<rparr>"
    let ?stored = "store env (uuids k) now (consolidateMemories env memories) ?opts st"
    have s: "importanceInvariant (snd ?stored)"
      using average_in_range [OF mem_ok ne]
      by (intro store_invariant [OF assms Cons.prems(1)]) (simp_all add: orElse_def)
    show ?thesis
    proof (cases ?stored)
      case (Pair r st1)
      with s have s1: "importanceInvariant st1" by simp
      show ?thesis
      proof (cases r)
        case (Inl e)
        with Pair s1 False g acc show ?thesis
          by (simp add: Let_def)
      next
        case (Inr consolidatedMemory)
        let ?ids = "map m_id memories"
        have d: "vs_deleteBatch (vsOps env) ?ids (vectorStore st1)
                   = (Inr (fst (mvs_deleteLoop ?ids 0 (vectorStore st1))),
                      snd (mvs_deleteLoop ?ids 0 (vectorStore st1)))"
          by (simp add: assms memoryVectorStore_def mvs_deleteBatch_value)
        have i: "importanceInvariant
                   (st1\<lparr>vectorStore := snd (mvs_deleteLoop ?ids 0 (vectorStore st1)),
                        workingMemory := deleteFromWorkingMemory ?ids (workingMemory st1)\<rparr>)"
          by (rule deleteBatch_invariant [OF s1])
        from Cons.IH [OF i rest] Pair Inr False g acc d show ?thesis
          by (simp add: Let_def)
      qed
    qed
  qed
qed

lemma consolidate_invariant:
  assumes "vsOps env = memoryVectorStore rnd" and "importanceInvariant st"
  shows "importanceInvariant (snd (consolidate env uuids now options st))"
proof -
  let ?older = "orElse (co_olderThan options) (now - consolidationAge env)"
  let ?target = "orElse (co_targetSize options) 50"
  let ?flt = "\<lparr>f_layer = Some (orElse (co_layer options) SHORT_TERM), f_tags = None,
               f_minImportance = None\<rparr>"
  let ?all = "filter (listKeeps ?flt) (map memory (mapValues (vectorStore st)))"
  let ?old = "filter (\<lambda>m. timestamp (metadata m) < ?older) ?all"
  let ?toConsolidate = "drop ?target (sort_key (\<lambda>m. - calculateMemoryScore env now m) ?old)"
  have l: "vs_list (vsOps env) ?flt (vectorStore st) = (Inr ?all, vectorStore st)"
    by (simp add: assms(1) memoryVectorStore_def mvs_list_def)
  have "list_all importanceOk ?all"
    by (rule listed_ok [OF assms(2)])
  then have "list_all importanceOk (sort_key (\<lambda>m. - calculateMemoryScore env now m) ?old)"
    by (simp add: list_all_iff)
  then have tc: "list_all importanceOk ?toConsolidate"
    using set_drop_subset [of ?target "sort_key (\<lambda>m. - calculateMemoryScore env now m) ?old"]
    by (auto simp: list_all_iff)
  show ?thesis
  proof (cases "length ?old < ?target")
    case True
    with assms(2) l show ?thesis
      by (simp add: consolidate_def Let_def del: showNat.simps)
  next
    case False
    show ?thesis
    proof (cases "groupByTags ?toConsolidate")
      case (Inl e)
      with False assms(2) l show ?thesis
        by (simp add: consolidate_def Let_def del: showNat.simps)
    next
      case (Inr grouped)
      have "list_all (\<lambda>kv. list_all importanceOk (snd kv)) grouped"
        using groupByTagsLoop_members [OF Inr [unfolded groupByTags_def] tc] by simp
      then have "list_all (\<lambda>kv. list_all importanceOk (snd kv)) (objectEntries grouped)"
        by (rule objectEntries_all)
      from consolidateGroups_invariant [OF assms(1) assms(2) this, of uuids now 0 "([], [])"]
      show ?thesis
        using False l Inr
        by (cases "consolidateGroups env uuids now 0 (objectEntries grouped) ([], []) st")
           (auto simp: consolidate_def Let_def simp del: showNat.simps split: sum.splits)
    qed
  qed
qed

lemma decay_floor:
  assumes "vsOps env = memoryVectorStore rnd" and "0 \<le> decayRate env"
      and "storeWf (vectorStore st)" and "mapGet (vectorStore st) i = Some s"
      and "importanceOk (memory s)"
      and "(now - timestamp (metadata (memory s))) / 86400000 \<ge> 1"
  shows "\<exists>x. importanceAt (vectorStore (snd (applyImportanceDecay env now st))) i = Some x
             \<and> 0.1 \<le> x \<and> x \<le> 1"
proof -
  have a: "1 \<le> ageDaysOf now (memory s)"
    using assms(6) by (simp add: ageDaysOf_def)
  have ok: "importanceOk (decayed env (ageDaysOf now (memory s)) (memory s))"
    by (rule decayed_ok [OF assms(5,2) a])
  have v: "importanceAt (vectorStore (snd (applyImportanceDecay env now st))) i
             = Some (importance (metadata (decayed env (ageDaysOf now (memory s)) (memory s))))"
    using a by (simp add: importanceAt_def decay_at(3) [OF assms(1,3,4)] decayEntry_def)
  have "0.1 \<le> importance (metadata (decayed env (ageDaysOf now (memory s)) (memory s)))"
    by (simp add: decayed_importance)
  with ok v show ?thesis
    by (simp add: importanceOk_def)
qed

text \<open>
  C1, as the code has it. On the in-process store, with a decay rate that is not negative:
  when every record of the store and of the working memory has its importance in
  \<open>[0, 1]\<close>, so has every record after \<open>store\<close> with an importance that passes the
  boundary check (or with none), after \<open>consolidate\<close>, after \<open>applyImportanceDecay\<close>
  and after \<open>rebalanceLayers\<close>, whether the operation returns or rejects. The floor 0.1
  holds where the code takes \<open>Math.max(0.1, ...)\<close>: after \<open>applyImportanceDecay\<close>
  every stored record at least one day old has its importance in \<open>[0.1, 1]\<close>.
\<close>

theorem importance_stays_in_unit_range:
  assumes "vsOps env = memoryVectorStore rnd" and "0 \<le> decayRate env"
      and "importanceInvariant st"
      and "validateImportance (orElse (o_importance options) 0.5) = Inr imp"
  shows "importanceInvariant (snd (store env newId now text options st)) \<and>
         importanceInvariant (snd (consolidate env uuids now copts st)) \<and>
         importanceInvariant (snd (applyImportanceDecay env now st)) \<and>
         importanceInvariant (snd (rebalanceLayers env now st)) \<and>
         (\<forall>i s. storeWf (vectorStore st) \<and> mapGet (vectorStore st) i = Some s \<and>
                 (now - timestamp (metadata (memory s))) / 86400000 \<ge> 1 \<longrightarrow>
                 (\<exists>x. importanceAt (vectorStore (snd (applyImportanceDecay env now st))) i = Some x
                      \<and> 0.1 \<le> x \<and> x \<le> 1))"
proof -
  have r: "0 \<le> orElse (o_importance options) 0.5" "orElse (o_importance options) 0.5 \<le> 1"
    using assms(4) by (auto simp: validateImportance_def split: if_splits)
  have f: "\<exists>x. importanceAt (vectorStore (snd (applyImportanceDecay env now st))) i = Some x
               \<and> 0.1 \<le> x \<and> x \<le> 1"
    if "storeWf (vectorStore st)" "mapGet (vectorStore st) i = Some s"
       "(now - timestamp (metadata (memory s))) / 86400000 \<ge> 1" for i s
  proof -
    have "(i, s) \<in> set (vectorStore st)"
      using that(2) by (rule mapGet_Some_mem)
    with assms(3) have "importanceOk (memory s)"
      by (force simp: importanceInvariant_def list_all_iff)
    with that show ?thesis
      by (intro decay_floor [OF assms(1,2)])
  qed
  show ?thesis
  proof (intro conjI allI impI)
    show "importanceInvariant (snd (store env newId now text options st))"
      by (rule store_invariant [OF assms(1,3) r])
    show "importanceInvariant (snd (consolidate env uuids now copts st))"
      by (rule consolidate_invariant [OF assms(1,3)])
    show "importanceInvariant (snd (applyImportanceDecay env now st))"
      by (rule applyImportanceDecay_invariant [OF assms(1,2,3)])
    show "importanceInvariant (snd (rebalanceLayers env now st))"
      by (rule rebalanceLayers_invariant [OF assms(1,3)])
  next
    fix i s
    assume "storeWf (vectorStore st) \<and> mapGet (vectorStore st) i = Some s \<and>
            (now - timestamp (metadata (memory s))) / 86400000 \<ge> 1"
    then show "\<exists>x. importanceAt (vectorStore (snd (applyImportanceDecay env now st))) i = Some x
                  \<and> 0.1 \<le> x \<and> x \<le> 1"
      using f [of i s] by blast
  qed
qed

lemma threeLayers_invariant: "importanceInvariant threeLayers"
  by (simp add: importanceInvariant_def importanceOk_def threeLayers_def run_defs)

theorem importance_stays_in_unit_range_witness:
  "importanceInvariant (snd (store (defaultEnv (memoryVectorStore noRounding) (constantProvider [1]))
       ''id-4'' 2000 ''D'' (noOptions\<lparr>o_importance := Some 0\<rparr>) threeLayers)) \<and>
   importanceInvariant (snd (applyImportanceDecay (defaultEnv (memoryVectorStore noRounding) (constantProvider [1]))
       2000 threeLayers))"
proof -
  have e: "vsOps (defaultEnv (memoryVectorStore noRounding) (constantProvider [1])) = memoryVectorStore noRounding"
    and d: "0 \<le> decayRate (defaultEnv (memoryVectorStore noRounding) (constantProvider [1]))"
    by (simp_all add: defaultEnv_def)
  have v: "validateImportance (orElse (o_importance (noOptions\<lparr>o_importance := Some 0\<rparr>)) 0.5) = Inr 0"
    by (simp add: validateImportance_def orElse_def)
  from importance_stays_in_unit_range [OF e d threeLayers_invariant v, of "''id-4''" 2000 "''D''"]
  show ?thesis by blast
qed

text \<open>
  The claim as stated fails: the importance 0 passes the boundary check, and \<open>store\<close>
  keeps it as it is, below 0.1.
\<close>

theorem importance_floor_counterexample:
  "validateImportance 0 = Inr 0 \<and>
   importanceAt (vectorStore (snd (store
         (defaultEnv (memoryVectorStore noRounding) (constantProvider [1])) ''id-1'' 1000 ''A''
         (noOptions\<lparr>o_importance := Some 0\<rparr>) emptyManager))) ''id-1'' = Some 0 \<and>
   \<not> 0.1 \<le> the (importanceAt (vectorStore (snd (store
         (defaultEnv (memoryVectorStore noRounding) (constantProvider [1])) ''id-1'' 1000 ''A''
         (noOptions\<lparr>o_importance := Some 0\<rparr>) emptyManager))) ''id-1'')"
  by (simp add: validateImportance_def importanceAt_def run_defs)

subsection \<open>The layer filter and the age threshold, in general\<close>

text \<open>
  On the in-process store, a search whose filter lists the layers \<open>l, ...\<close> returns
  records of the layer \<open>l\<close> only.
\<close>

lemma searchLoop_layer:
  "searchLoop rnd q f ss = Inr rs \<Longrightarrow> f_layer f = Some l \<Longrightarrow> r \<in> set rs \<Longrightarrow>
   layer (r_metadata r) = l"
proof (induction ss arbitrary: rs)
  case Nil
  then show ?case by simp
next
  case (Cons s ss)
  show ?case
  proof (cases "searchKeeps f (memory s)")
    case False
    with Cons show ?thesis by auto
  next
    case True
    with Cons.prems(1) obtain rel rs' where
      t: "searchLoop rnd q f ss = Inr rs'" and
      rs: "rs = \<lparr>r_id = m_id (memory s), r_content = content (memory s),
                  relevance = rel, r_metadata = metadata (memory s)\<rparr> # rs'"
      by (auto split: sum.splits)
    have here: "layer (metadata (memory s)) = l"
      using True Cons.prems(2) by (simp add: searchKeeps_def)
    show ?thesis
    proof (cases "r \<in> set rs'")
      case True
      with Cons.IH [OF t Cons.prems(2)] show ?thesis by simp
    next
      case False
      with Cons.prems(3) rs here show ?thesis by auto
    qed
  qed
qed

lemma raisedCounters_layer [simp]: "layer (r_metadata (raisedCounters env now r)) = layer (r_metadata r)"
  by (simp add: raisedCounters_def split: option.splits)

lemma search_returns_first_layer_only:
  assumes "vsOps env = memoryVectorStore rnd" and "layerFilter options = Some (l # ls)"
      and "fst (search env now query options st) = Inr rs" and "r \<in> set rs"
  shows "layer (r_metadata r) = l"
proof -
  from assms(3) obtain q k found v' where
    f: "mvs_search rnd q k (buildFilter options) (vectorStore st) = (Inr found, v')"
    and rs: "rs = map (raisedCounters env now)
                    (take (orElse (limit options) 10)
                       (filter (\<lambda>r. relevance r \<ge> orElse (minRelevance options) 0) found))"
    by (auto simp: search_def Let_def assms(1) memoryVectorStore_def
             split: prod.splits sum.splits)
  from f obtain rs0 where l0: "searchLoop rnd q (buildFilter options) (mapValues (vectorStore st)) = Inr rs0"
    and found: "found = take k (byRelevanceDesc rs0)"
    by (auto simp: mvs_search_def split: sum.splits)
  from assms(4) rs obtain r0 where r0: "r = raisedCounters env now r0" "r0 \<in> set found"
    by (auto dest: in_set_takeD)
  then have "r0 \<in> set rs0"
    using found by (auto simp: byRelevanceDesc_def dest: in_set_takeD)
  moreover have "f_layer (buildFilter options) = Some l"
    using assms(2) by (simp add: buildFilter_def)
  ultimately have "layer (r_metadata r0) = l"
    using searchLoop_layer [OF l0] by blast
  with r0(1) show ?thesis by simp
qed

text \<open>
  On the in-process store, \<open>forget\<close> without \<open>memoryId\<close> and with a threshold
  \<open>olderThan\<close> other than 0 deletes exactly the listed records (those of the layer, when
  one is given) whose timestamp is below the threshold.
\<close>

lemma forget_by_age:
  assumes "vsOps env = memoryVectorStore rnd" and "memoryId options = None"
      and "olderThan options = Some t" and "t \<noteq> 0"
  shows "map_sum id deleted (fst (forget env options st))
           = Inr (map m_id [m \<leftarrow> map memory (mapValues (vectorStore st)).
                              (case fo_layer options of None \<Rightarrow> True
                               | Some l \<Rightarrow> layer (metadata m) = l)
                              \<and> timestamp (metadata m) < t])"
  using assms
  by (simp add: forget_def forgetById_def truthyString_def truthyNumber_def memoryVectorStore_def
        mvs_list_def listKeeps_def forgetKeeps_def mvs_deleteBatch_value not_le Let_def)

subsection \<open>The well-formedness of the store and of the working memory\<close>

text \<open>
  The empty store is well-formed, the writers of the in-process adapter keep it so, and
  \<open>store\<close> keeps both the store and the working memory well-formed.
\<close>

lemma mapSet_keys_general:
  "map fst (mapSet k x m) = (if k \<in> fst ` set m then map fst m else map fst m @ [k])"
  by (induction m) force+

lemma storeWf_empty: "storeWf []"
  by (simp add: storeWf_def)

lemma storeWf_mapSet_any:
  assumes "storeWf v" and "m_id (memory x) = k"
  shows "storeWf (mapSet k x v)"
  using assms mapSet_set [of k x v]
  by (auto simp: storeWf_def mapSet_keys_general list_all_iff)

lemma mvs_store_wf: "storeWf v \<Longrightarrow> storeWf (snd (mvs_store m v))"
  by (simp add: mvs_store_def storeWf_mapSet_any split: option.splits)

lemma mvs_update_wf: "storeWf v \<Longrightarrow> storeWf (snd (mvs_update m v))"
  by (simp add: mvs_update_def storeWf_mapSet_any split: option.splits)

lemma mvs_delete_wf: "storeWf v \<Longrightarrow> storeWf (snd (mvs_delete i v))"
  by (simp add: mvs_delete_def mapDelete_def storeWf_def list_all_iff distinct_map_filter)

lemma store_wf:
  assumes "vsOps env = memoryVectorStore rnd" and "storeWf (vectorStore st)"
      and "cacheWf (workingMemory st)"
  shows "storeWf (vectorStore (snd (store env newId now text options st))) \<and>
         cacheWf (workingMemory (snd (store env newId now text options st)))"
proof (cases "embed (epOps env) text (embeddingProvider st)")
  case (Pair r p')
  show ?thesis
  proof (cases r)
    case (Inl e)
    with Pair assms(2,3) show ?thesis
      by (simp add: store_def)
  next
    case (Inr emb)
    have i: "m_id (newMemory newId now text emb options) = newId"
      and e: "embedding (newMemory newId now text emb options) = Some emb"
      by (simp_all add: newMemory_def)
    have c: "cacheWf (mapSet newId (newMemory newId now text emb options) (workingMemory st))"
      by (rule cacheWf_mapSet [OF assms(3) i])
    have w: "storeWf (mapSet newId \<lparr>memory = newMemory newId now text emb options, sm_embedding = emb\<rparr>
                        (vectorStore st))"
      by (rule storeWf_mapSet_any [OF assms(2)]) (simp add: i)
    show ?thesis
      using Pair Inr c w
      by (simp add: store_def Let_def assms(1) memoryVectorStore_def mvs_store_def e i)
  qed
qed

end
